theory Spec2Isabelle
  imports Main "HOL-Library.AList"
begin

section \<open>The tables of the object mover\<close>

text \<open>
  The module \<^verbatim>\<open>relstorage/adapters/mover.py\<close> is a set of SQL statements run through a
  cursor. A table is modelled as the list of its rows and a statement as a function on
  these lists. The key constraints of the schema are declared outside this module, so a
  table here may hold any rows; where a property depends on a key being unique, the
  uniqueness is a hypothesis of the theorem.

  Object and transaction ids are Python integers. A nullable column is an \<open>option\<close>:
  \<open>None\<close> is SQL \<^verbatim>\<open>NULL\<close> and Python \<^verbatim>\<open>None\<close>.
\<close>

type_synonym oid = int
type_synonym tid = int
type_synonym bytes = string

text \<open>
  \<^verbatim>\<open>object_state (zoid, tid, prev_tid, md5, state_size, state)\<close>. The history-free
  statements fill only \<^verbatim>\<open>zoid, tid, state_size, state\<close>: there \<open>os_prev_tid\<close> and
  \<open>os_md5\<close> are \<open>None\<close>.
\<close>

record object_state_row =
  os_zoid :: oid
  os_tid :: tid
  os_prev_tid :: "tid option"
  os_md5 :: "string option"
  os_state_size :: nat
  os_state :: "bytes option"

text \<open>\<^verbatim>\<open>current_object (zoid, tid)\<close>\<close>

record current_object_row =
  co_zoid :: oid
  co_tid :: tid

text \<open>\<^verbatim>\<open>temp_store (zoid, prev_tid, md5, state)\<close>\<close>

record temp_store_row =
  ts_zoid :: oid
  ts_prev_tid :: tid
  ts_md5 :: "string option"
  ts_state :: "bytes option"

text \<open>\<^verbatim>\<open>blob_chunk (zoid, tid, chunk_num, chunk)\<close>\<close>

record blob_chunk_row =
  bc_zoid :: oid
  bc_tid :: tid
  bc_chunk_num :: nat
  bc_chunk :: bytes

text \<open>\<^verbatim>\<open>temp_blob_chunk (zoid, chunk_num, chunk)\<close>\<close>

record temp_blob_chunk_row =
  tb_zoid :: oid
  tb_chunk_num :: nat
  tb_chunk :: bytes

record db =
  object_state :: "object_state_row list"
  current_object :: "current_object_row list"
  temp_store :: "temp_store_row list"
  blob_chunk :: "blob_chunk_row list"
  temp_blob_chunk :: "temp_blob_chunk_row list"

section \<open>Helpers that live outside the module\<close>

text \<open>
  Modelled from the spec: \<^verbatim>\<open>query_property\<close> of \<^verbatim>\<open>relstorage/adapters/_util.py\<close> is
  not among the sources. The spec's Query Dialect Selector "chooses, per operation,
  between a history-preserving and a history-free statement form"; in the module each
  \<^verbatim>\<open>_xxx_queries\<close> pair lists the form on \<^verbatim>\<open>current_object\<close> first and the form on
  \<^verbatim>\<open>object_state\<close> alone second.
\<close>

definition query_property :: "bool \<Rightarrow> 'q \<times> 'q \<Rightarrow> 'q" where
  "query_property keep_history queries = (if keep_history then fst queries else snd queries)"

text \<open>
  Modelled from the spec: \<^verbatim>\<open>fetchmany\<close> of \<^verbatim>\<open>relstorage/iter.py\<close> is not among the
  sources. The spec lists it as the cursor's "lazy batched fetch": it yields every row
  of the result, in the result's order.
\<close>

definition fetchmany :: "'r list \<Rightarrow> 'r list" where
  "fetchmany rows = rows"

text \<open>\<^verbatim>\<open>cursor.fetchone()\<close>: the first row of the result, or \<open>None\<close>.\<close>

definition fetchone :: "'r list \<Rightarrow> 'r option" where
  "fetchone rows = (case rows of [] \<Rightarrow> None | r # _ \<Rightarrow> Some r)"

text \<open>
  Modelled from the spec: \<^verbatim>\<open>noop_when_history_free\<close> of
  \<^verbatim>\<open>relstorage/adapters/_util.py\<close> is not among the sources. The spec says of the
  methods it decorates that they are a "no-op in history-free mode" (4.5) and "a no-op
  decorator in history-free mode" (9): with \<open>keep_history\<close> the method runs, without it
  the call does nothing and returns \<open>no_op\<close> (Python's \<^verbatim>\<open>None\<close>, or the unchanged state).
\<close>

definition noop_when_history_free :: "bool \<Rightarrow> ('a \<Rightarrow> 'r) \<Rightarrow> ('a \<Rightarrow> 'r) \<Rightarrow> 'a \<Rightarrow> 'r" where
  "noop_when_history_free keep_history meth no_op x = (if keep_history then meth x else no_op x)"

text \<open>
  Modelled from the spec: the database driver (\<^verbatim>\<open>IDBDriver\<close>) is not among the
  sources. The spec lists "a binary encoder/decoder for large-object parameters and a
  decoder from a backend-native binary column type to the state's in-memory byte
  representation". \<^verbatim>\<open>Binary\<close> wraps the bytes as a column value;
  \<^verbatim>\<open>binary_column_as_state_type\<close> gives the bytes of a column value back and leaves
  \<^verbatim>\<open>NULL\<close> as \<^verbatim>\<open>None\<close> (the comments of \<^verbatim>\<open>load_current\<close> rely on it: "If it's
  None, the object's creation has been undone").
\<close>

definition Binary :: "bytes \<Rightarrow> bytes option" where
  "Binary data = Some data"

text \<open>
  Modelled from the spec: \<^verbatim>\<open>driver.binary_column_as_state_type\<close>, the decoder of the
  driver described above.
\<close>

definition binary_column_as_state_type :: "bytes option \<Rightarrow> bytes option" where
  "binary_column_as_state_type column = column"

section \<open>Fingerprint\<close>

text \<open>
  \<^verbatim>\<open>_compute_md5sum\<close>. The digest \<^verbatim>\<open>md5(data).hexdigest()\<close> of \<^verbatim>\<open>hashlib\<close> is the
  parameter \<open>md5hex\<close>.
\<close>

definition compute_md5sum :: "(bytes \<Rightarrow> string) \<Rightarrow> bool \<Rightarrow> bytes option \<Rightarrow> string option" where
  "compute_md5sum md5hex keep_history data =
     noop_when_history_free keep_history
       (\<lambda>data. case data of None \<Rightarrow> None | Some b \<Rightarrow> Some (md5hex b))
       (\<lambda>_. None) data"

section \<open>Reader\<close>

text \<open>\<^verbatim>\<open>_load_current_queries\<close> and \<^verbatim>\<open>load_current\<close>\<close>

definition load_current_queries ::
  "(db \<Rightarrow> oid \<Rightarrow> (bytes option \<times> tid) list) \<times> (db \<Rightarrow> oid \<Rightarrow> (bytes option \<times> tid) list)" where
  "load_current_queries =
    (\<lambda>d oid. [(os_state s, os_tid s).
            c \<leftarrow> current_object d, s \<leftarrow> object_state d,
            os_zoid s = co_zoid c \<and> os_tid s = co_tid c, co_zoid c = oid],
     \<lambda>d oid. [(os_state s, os_tid s). s \<leftarrow> object_state d, os_zoid s = oid])"

definition load_current :: "bool \<Rightarrow> db \<Rightarrow> oid \<Rightarrow> bytes option \<times> tid option" where
  "load_current keep_history d oid =
     (case fetchone (query_property keep_history load_current_queries d oid) of
        Some (state, tid) \<Rightarrow> (binary_column_as_state_type state, Some tid)
      | None \<Rightarrow> (None, None))"

text \<open>\<^verbatim>\<open>_load_revision_query\<close> and \<^verbatim>\<open>load_revision\<close>\<close>

definition load_revision_query :: "db \<Rightarrow> oid \<Rightarrow> tid \<Rightarrow> bytes option list" where
  "load_revision_query d oid tid =
     [os_state s. s \<leftarrow> object_state d, os_zoid s = oid \<and> os_tid s = tid]"

definition load_revision :: "db \<Rightarrow> oid \<Rightarrow> tid \<Rightarrow> bytes option" where
  "load_revision d oid tid =
     (case fetchone (load_revision_query d oid tid) of
        Some state \<Rightarrow> binary_column_as_state_type state
      | None \<Rightarrow> None)"

text \<open>
  \<^verbatim>\<open>_current_object_tids_queries\<close> and \<^verbatim>\<open>current_object_tids\<close>. The loop takes the
  first 1000 ids, deletes them from the list, runs the statement with them as the
  \<^verbatim>\<open>IN\<close> list and stores every row of the result in \<^verbatim>\<open>res\<close>.
\<close>

definition current_object_tids_queries ::
  "(db \<Rightarrow> oid list \<Rightarrow> (oid \<times> tid) list) \<times> (db \<Rightarrow> oid list \<Rightarrow> (oid \<times> tid) list)" where
  "current_object_tids_queries =
    (\<lambda>d oid_list. [(co_zoid c, co_tid c). c \<leftarrow> current_object d, co_zoid c \<in> set oid_list],
     \<lambda>d oid_list. [(os_zoid s, os_tid s). s \<leftarrow> object_state d, os_zoid s \<in> set oid_list])"

definition store_rows :: "(oid \<times> tid) list \<Rightarrow> (oid \<rightharpoonup> tid) \<Rightarrow> (oid \<rightharpoonup> tid)" where
  "store_rows rows res = fold (\<lambda>(oid, tid) res. res(oid \<mapsto> tid)) rows res"

function current_object_tids_loop ::
  "(db \<Rightarrow> oid list \<Rightarrow> (oid \<times> tid) list) \<Rightarrow> db \<Rightarrow> oid list \<Rightarrow> (oid \<rightharpoonup> tid) \<Rightarrow> (oid \<rightharpoonup> tid)" where
  "current_object_tids_loop stmt d oids res =
     (if oids = [] then res
      else current_object_tids_loop stmt d (drop 1000 oids)
             (store_rows (fetchmany (stmt d (take 1000 oids))) res))"
  by pat_completeness auto
termination
  by (relation "measure (\<lambda>(stmt, d, oids, res). length oids)") auto

definition current_object_tids :: "bool \<Rightarrow> db \<Rightarrow> oid list \<Rightarrow> (oid \<rightharpoonup> tid)" where
  "current_object_tids keep_history d oids =
     current_object_tids_loop (query_property keep_history current_object_tids_queries) d oids Map.empty"

text \<open>
  The spec asks for chunking as a "design constraint, not a specific chunk size". This
  second definition follows the spec's words: the ids arrive already split into chunks,
  in any way, and each chunk is one statement.
\<close>

definition current_object_tids_chunks :: "bool \<Rightarrow> db \<Rightarrow> oid list list \<Rightarrow> (oid \<rightharpoonup> tid)" where
  "current_object_tids_chunks keep_history d chunks =
     fold (\<lambda>chunk res.
             store_rows (fetchmany (query_property keep_history current_object_tids_queries d chunk)) res)
          chunks Map.empty"

section \<open>Staging\<close>

text \<open>
  Modelled from the spec: the row batcher (\<^verbatim>\<open>RowBatcher\<close> of
  \<^verbatim>\<open>relstorage/adapters/batch.py\<close>) is not among the sources. The spec lists it as "a
  row-batching utility offering \<^verbatim>\<open>insert_into\<close>, \<^verbatim>\<open>delete_from\<close> with per-row keys
  for deduplication of multi-row statement assembly", and leaves its buffering
  mechanics out of scope. The model keeps what \<^verbatim>\<open>_generic_store_temp\<close> hands to it:
  the buffered deletes of \<^verbatim>\<open>temp_store\<close> rows by \<^verbatim>\<open>zoid\<close>, and the buffered inserts
  into \<^verbatim>\<open>temp_store\<close>, one per statement form (command and suffix) and row key, a later
  insert with the same statement form and row key replacing the earlier one. A flush
  runs the buffered deletes and then the buffered inserts, as the delete-then-insert of
  \<^verbatim>\<open>_generic_store_temp\<close> needs. When the batcher flushes is its own business: the
  staging properties hold whether or not a flush falls between two calls of
  \<^verbatim>\<open>_generic_store_temp\<close>. A flush inside one call, between its delete and its
  insert, is not part of the model.
\<close>

record batcher =
  deletes :: "oid list"
  inserts :: "(((string \<times> string) \<times> oid) \<times> temp_store_row) list"

text \<open>Modelled from the spec: a batcher as \<^verbatim>\<open>RowBatcher(cursor)\<close> makes it, with nothing buffered.\<close>

definition new_batcher :: batcher where
  "new_batcher = \<lparr>deletes = [], inserts = []\<rparr>"

text \<open>
  Modelled from the spec: \<^verbatim>\<open>batcher.delete_from('temp_store', zoid=oid)\<close> buffers the
  delete of the rows with that \<^verbatim>\<open>zoid\<close>.
\<close>

definition delete_from_temp_store :: "oid \<Rightarrow> batcher \<Rightarrow> batcher" where
  "delete_from_temp_store oid b = b\<lparr>deletes := List.insert oid (deletes b)\<rparr>"

text \<open>
  Modelled from the spec: \<^verbatim>\<open>batcher.insert_into("temp_store (...)", ..., rowkey=oid,
  command=command, suffix=suffix)\<close> buffers the row under its statement form and row key
  ("per-row keys for deduplication").
\<close>

definition insert_into_temp_store ::
  "temp_store_row \<Rightarrow> oid \<Rightarrow> string \<Rightarrow> string \<Rightarrow> batcher \<Rightarrow> batcher" where
  "insert_into_temp_store row rowkey command suffix b =
     b\<lparr>inserts := AList.update ((command, suffix), rowkey) row (inserts b)\<rparr>"

text \<open>
  Modelled from the spec: one buffered insert, run against the table. The spec (4.2)
  allows "delete-then-insert or a native upsert". The plain statement
  (\<^verbatim>\<open>command='INSERT'\<close>, no suffix) adds the row. The other forms are the backends'
  upserts, as the comments of \<^verbatim>\<open>_generic_store_temp\<close> say ("MySQL uses command=REPLACE
  for an UPSERT", "PostgreSQL 9.5+ uses a suffix='ON CONFLICT UPDATE...' for an UPSERT"):
  the row takes the place of the rows with its \<^verbatim>\<open>zoid\<close>, or is added when there is none.
\<close>

definition run_insert ::
  "string \<Rightarrow> string \<Rightarrow> temp_store_row \<Rightarrow> temp_store_row list \<Rightarrow> temp_store_row list" where
  "run_insert command suffix row rows =
     (if command = ''INSERT'' \<and> suffix = [] then rows @ [row]
      else if ts_zoid row \<in> ts_zoid ` set rows
        then map (\<lambda>r. if ts_zoid r = ts_zoid row then row else r) rows
        else rows @ [row])"

text \<open>
  Modelled from the spec: the flush of the batcher runs the buffered deletes, then the
  buffered inserts, and leaves the batcher empty.
\<close>

definition flush :: "db \<times> batcher \<Rightarrow> db \<times> batcher" where
  "flush s =
     (case s of (d, b) \<Rightarrow>
        (d\<lparr>temp_store :=
             fold (\<lambda>(key, row). run_insert (fst (fst key)) (snd (fst key)) row) (inserts b)
               [r \<leftarrow> temp_store d. ts_zoid r \<notin> set (deletes b)]\<rparr>,
         new_batcher))"

text \<open>\<^verbatim>\<open>_generic_store_temp\<close>\<close>

definition generic_store_temp ::
  "(bytes \<Rightarrow> string) \<Rightarrow> bool \<Rightarrow> batcher \<Rightarrow> oid \<Rightarrow> tid \<Rightarrow> bytes \<Rightarrow> string \<Rightarrow> string \<Rightarrow> batcher" where
  "generic_store_temp md5hex keep_history b oid prev_tid data command suffix =
     (let md5sum = compute_md5sum md5hex keep_history (Some data);
          b1 = (if command = ''INSERT'' \<and> suffix = [] then delete_from_temp_store oid b else b)
      in insert_into_temp_store
           \<lparr>ts_zoid = oid, ts_prev_tid = prev_tid, ts_md5 = md5sum, ts_state = Binary data\<rparr>
           oid command suffix b1)"

section \<open>Conflict detection\<close>

text \<open>
  \<^verbatim>\<open>_detect_conflict_queries\<close>: the join of \<^verbatim>\<open>temp_store\<close> with
  \<^verbatim>\<open>current_object\<close> (history-preserving) or with \<^verbatim>\<open>object_state\<close> (history-free)
  on \<^verbatim>\<open>zoid\<close>, keeping the pairs whose tids differ.
\<close>

definition detect_conflict_queries ::
  "(db \<Rightarrow> (oid \<times> tid \<times> tid) list) \<times> (db \<Rightarrow> (oid \<times> tid \<times> tid) list)" where
  "detect_conflict_queries =
    (\<lambda>d. [(ts_zoid t, co_tid c, ts_prev_tid t).
            t \<leftarrow> temp_store d, c \<leftarrow> current_object d,
            co_zoid c = ts_zoid t, ts_prev_tid t \<noteq> co_tid c],
     \<lambda>d. [(ts_zoid t, os_tid s, ts_prev_tid t).
            t \<leftarrow> temp_store d, s \<leftarrow> object_state d,
            os_zoid s = ts_zoid t, ts_prev_tid t \<noteq> os_tid s])"

definition detect_conflict :: "bool \<Rightarrow> db \<Rightarrow> (oid \<times> tid \<times> tid) list" where
  "detect_conflict keep_history d = query_property keep_history detect_conflict_queries d"

section \<open>Staging, after conflict resolution\<close>

text \<open>\<^verbatim>\<open>replace_temp\<close>: one \<^verbatim>\<open>UPDATE temp_store SET ... WHERE zoid = %s\<close>.\<close>

definition replace_temp :: "(bytes \<Rightarrow> string) \<Rightarrow> bool \<Rightarrow> db \<Rightarrow> oid \<Rightarrow> tid \<Rightarrow> bytes \<Rightarrow> db" where
  "replace_temp md5hex keep_history d oid prev_tid data =
     (let md5sum = compute_md5sum md5hex keep_history (Some data)
      in d\<lparr>temp_store :=
             map (\<lambda>r. if ts_zoid r = oid
                       then r\<lparr>ts_prev_tid := prev_tid, ts_md5 := md5sum, ts_state := Binary data\<rparr>
                       else r)
                 (temp_store d)\<rparr>)"

section \<open>Commit mover\<close>

text \<open>\<^verbatim>\<open>COALESCE(LENGTH(state), 0)\<close>\<close>

definition state_size :: "bytes option \<Rightarrow> nat" where
  "state_size state = (case state of None \<Rightarrow> 0 | Some b \<Rightarrow> length b)"

text \<open>\<^verbatim>\<open>_move_from_temp_hp_insert_query\<close>\<close>

definition move_from_temp_hp_insert_query :: "tid \<Rightarrow> db \<Rightarrow> db" where
  "move_from_temp_hp_insert_query tid d =
     d\<lparr>object_state := object_state d @
          [\<lparr>os_zoid = ts_zoid t, os_tid = tid, os_prev_tid = Some (ts_prev_tid t),
            os_md5 = ts_md5 t, os_state_size = state_size (ts_state t), os_state = ts_state t\<rparr>.
           t \<leftarrow> temp_store d]\<rparr>"

text \<open>\<^verbatim>\<open>_move_from_temp_hf_insert_query\<close>\<close>

definition move_from_temp_hf_insert_query :: "tid \<Rightarrow> db \<Rightarrow> db" where
  "move_from_temp_hf_insert_query tid d =
     d\<lparr>object_state := object_state d @
          [\<lparr>os_zoid = ts_zoid t, os_tid = tid, os_prev_tid = None,
            os_md5 = None, os_state_size = state_size (ts_state t), os_state = ts_state t\<rparr>.
           t \<leftarrow> temp_store d]\<rparr>"

text \<open>\<^verbatim>\<open>_move_from_temp_copy_blob_query\<close>\<close>

definition move_from_temp_copy_blob_query :: "tid \<Rightarrow> db \<Rightarrow> db" where
  "move_from_temp_copy_blob_query tid d =
     d\<lparr>blob_chunk := blob_chunk d @
          [\<lparr>bc_zoid = tb_zoid c, bc_tid = tid, bc_chunk_num = tb_chunk_num c, bc_chunk = tb_chunk c\<rparr>.
           c \<leftarrow> temp_blob_chunk d]\<rparr>"

text \<open>\<^verbatim>\<open>_move_from_temp_hf_delete_blob_chunk_query\<close>\<close>

definition move_from_temp_hf_delete_blob_chunk_query :: "db \<Rightarrow> db" where
  "move_from_temp_hf_delete_blob_chunk_query d =
     d\<lparr>blob_chunk := [c \<leftarrow> blob_chunk d. bc_zoid c \<notin> ts_zoid ` set (temp_store d)]\<rparr>"

text \<open>\<^verbatim>\<open>_move_from_temp_object_state\<close>: the delete, then the history-free insert.\<close>

definition move_from_temp_object_state :: "tid \<Rightarrow> db \<Rightarrow> db" where
  "move_from_temp_object_state tid d =
     move_from_temp_hf_insert_query tid
       (d\<lparr>object_state := [s \<leftarrow> object_state d. os_zoid s \<notin> ts_zoid ` set (temp_store d)]\<rparr>)"

text \<open>\<^verbatim>\<open>move_from_temp\<close>: the new state of the tables and the list of oids returned.\<close>

definition move_from_temp :: "bool \<Rightarrow> tid \<Rightarrow> bool \<Rightarrow> db \<Rightarrow> db \<times> oid list" where
  "move_from_temp keep_history tid txn_has_blobs d =
     (let d1 = (if keep_history then move_from_temp_hp_insert_query tid d
                else (let d0 = move_from_temp_object_state tid d
                      in if txn_has_blobs then move_from_temp_hf_delete_blob_chunk_query d0 else d0));
          d2 = (if txn_has_blobs then move_from_temp_copy_blob_query tid d1 else d1)
      in (d2, [oid. oid \<leftarrow> fetchmany (map ts_zoid (temp_store d2))]))"

section \<open>Current-pointer updater\<close>

text \<open>\<^verbatim>\<open>_update_current_insert_query\<close>\<close>

definition update_current_insert_query :: "tid \<Rightarrow> db \<Rightarrow> db" where
  "update_current_insert_query tid d =
     d\<lparr>current_object := current_object d @
          [\<lparr>co_zoid = os_zoid s, co_tid = os_tid s\<rparr>.
           s \<leftarrow> object_state d, os_tid s = tid \<and> os_prev_tid s = Some 0]\<rparr>"

text \<open>
  \<^verbatim>\<open>_update_current_update_query\<close>. The comparison \<^verbatim>\<open>prev_tid != 0\<close> is not true of a
  \<^verbatim>\<open>NULL\<close>. The subquery's \<^verbatim>\<open>ORDER BY zoid\<close> sorts the list that the \<^verbatim>\<open>IN\<close> test
  reads.
\<close>

definition update_current_update_query :: "tid \<Rightarrow> tid \<Rightarrow> db \<Rightarrow> db" where
  "update_current_update_query tid1 tid2 d =
     d\<lparr>current_object :=
          map (\<lambda>c. if co_zoid c \<in> set (sort [os_zoid s. s \<leftarrow> object_state d,
                                   os_tid s = tid2 \<and> (case os_prev_tid s of None \<Rightarrow> False | Some p \<Rightarrow> p \<noteq> 0)])
                    then c\<lparr>co_tid := tid1\<rparr> else c)
              (current_object d)\<rparr>"

text \<open>\<^verbatim>\<open>update_current\<close>, under \<^verbatim>\<open>@noop_when_history_free\<close>\<close>

definition update_current :: "bool \<Rightarrow> tid \<Rightarrow> db \<Rightarrow> db" where
  "update_current keep_history tid d =
     noop_when_history_free keep_history
       (\<lambda>d. update_current_update_query tid tid (update_current_insert_query tid d))
       (\<lambda>d. d) d"

section \<open>Example states\<close>

text \<open>
  The conflict scenario of the spec: the current pointer of object 7 is 100 and the
  object is staged with prior tid 50; object 8 is staged with its current tid; object 9
  is new; object 10 is staged with prior tid 40 and has no current pointer.
\<close>

definition example_db :: db where
  "example_db =
     \<lparr>object_state =
        [\<lparr>os_zoid = 7, os_tid = 100, os_prev_tid = Some 50, os_md5 = None,
          os_state_size = 1, os_state = Some ''A''\<rparr>,
         \<lparr>os_zoid = 8, os_tid = 200, os_prev_tid = Some 0, os_md5 = None,
          os_state_size = 0, os_state = None\<rparr>],
      current_object = [\<lparr>co_zoid = 7, co_tid = 100\<rparr>, \<lparr>co_zoid = 8, co_tid = 200\<rparr>],
      temp_store =
        [\<lparr>ts_zoid = 7, ts_prev_tid = 50, ts_md5 = None, ts_state = Some ''B''\<rparr>,
         \<lparr>ts_zoid = 8, ts_prev_tid = 200, ts_md5 = None, ts_state = Some ''C''\<rparr>,
         \<lparr>ts_zoid = 9, ts_prev_tid = 0, ts_md5 = None, ts_state = Some ''D''\<rparr>,
         \<lparr>ts_zoid = 10, ts_prev_tid = 40, ts_md5 = None, ts_state = None\<rparr>],
      blob_chunk = [\<lparr>bc_zoid = 7, bc_tid = 100, bc_chunk_num = 0, bc_chunk = ''x''\<rparr>],
      temp_blob_chunk = [\<lparr>tb_zoid = 7, tb_chunk_num = 0, tb_chunk = ''y''\<rparr>]\<rparr>"

section \<open>Facts about keyed tables\<close>

lemma filter_key_distinct:
  "distinct (map f xs) \<Longrightarrow> x \<in> set xs \<Longrightarrow> filter (\<lambda>y. f y = f x) xs = [x]"
proof (induction xs)
  case Nil
  then show ?case by simp
next
  case (Cons a xs)
  show ?case
  proof (cases "a = x")
    case True
    have "\<forall>y\<in>set xs. f y \<noteq> f x"
      using Cons.prems(1) True by (auto simp: image_iff)
    then have "filter (\<lambda>y. f y = f x) xs = []"
      by (simp add: filter_empty_conv)
    with True show ?thesis by simp
  next
    case False
    with Cons.prems have xin: "x \<in> set xs" by simp
    with Cons.prems(1) have "f a \<noteq> f x" by (auto simp: image_iff)
    with Cons.IH Cons.prems(1) xin show ?thesis by simp
  qed
qed

lemma filter_key_absent:
  "k \<notin> f ` set xs \<Longrightarrow> filter (\<lambda>y. f y = k) xs = []"
  by (auto simp: filter_empty_conv)

lemma concat_map_if_singleton:
  "concat (map (\<lambda>c. if P c then (if Q c then [h c] else []) else []) xs)
     = map h (filter Q (filter P xs))"
  by (induction xs) auto

lemma filter_concat_map_key:
  assumes "distinct (map f xs)" and "x \<in> set xs"
    and "\<And>y r. y \<in> set xs \<Longrightarrow> r \<in> set (g y) \<Longrightarrow> h r = f y"
  shows "filter (\<lambda>r. h r = f x) (concat (map g xs)) = g x"
  using assms
proof (induction xs)
  case Nil
  then show ?case by simp
next
  case (Cons a xs)
  have own: "filter (\<lambda>r. h r = f a) (g a) = g a"
    using Cons.prems(3)[of a] by (simp add: filter_id_conv)
  show ?case
  proof (cases "a = x")
    case True
    have "\<forall>y\<in>set xs. f y \<noteq> f x"
      using Cons.prems(1) True by (auto simp: image_iff)
    then have "h r \<noteq> f x" if "y \<in> set xs" "r \<in> set (g y)" for y r
      using Cons.prems(3)[of y r] that by simp
    then have "filter (\<lambda>r. h r = f x) (concat (map g xs)) = []"
      by (auto simp: filter_empty_conv)
    with True own show ?thesis by simp
  next
    case False
    with Cons.prems(2) have xin: "x \<in> set xs" by simp
    with Cons.prems(1) have ne: "f a \<noteq> f x" by (auto simp: image_iff)
    have "filter (\<lambda>r. h r = f x) (g a) = []"
      using Cons.prems(3)[of a] ne by (auto simp: filter_empty_conv)
    moreover have "filter (\<lambda>r. h r = f x) (concat (map g xs)) = g x"
      using Cons.IH Cons.prems(1,3) xin by simp
    ultimately show ?thesis by simp
  qed
qed

lemma concat_map_if_single:
  "concat (map (\<lambda>c. if P c then [h c] else []) xs) = map h (filter P xs)"
  by (induction xs) auto

section \<open>Conflict detection: properties\<close>

lemma detect_conflict_hp_unfold:
  "detect_conflict True d =
     concat (map (\<lambda>t. map (\<lambda>c. (ts_zoid t, co_tid c, ts_prev_tid t))
        (filter (\<lambda>c. ts_prev_tid t \<noteq> co_tid c)
           (filter (\<lambda>c. co_zoid c = ts_zoid t) (current_object d)))) (temp_store d))"
  unfolding detect_conflict_def query_property_def detect_conflict_queries_def
  by (simp add: concat_map_if_singleton del: filter_filter)

lemma detect_conflict_hf_unfold:
  "detect_conflict False d =
     concat (map (\<lambda>t. map (\<lambda>s. (ts_zoid t, os_tid s, ts_prev_tid t))
        (filter (\<lambda>s. ts_prev_tid t \<noteq> os_tid s)
           (filter (\<lambda>s. os_zoid s = ts_zoid t) (object_state d)))) (temp_store d))"
  unfolding detect_conflict_def query_property_def detect_conflict_queries_def
  by (simp add: concat_map_if_singleton del: filter_filter)

lemma join_select:
  assumes "distinct (map kt ts)" and "t \<in> set ts"
  shows "filter (\<lambda>r. fst r = kt t)
           (concat (map (\<lambda>t. map (\<lambda>c. (kt t, vc c, vt t))
              (filter (\<lambda>c. vt t \<noteq> vc c) (filter (\<lambda>c. kc c = kt t) cs))) ts))
         = map (\<lambda>c. (kt t, vc c, vt t))
              (filter (\<lambda>c. vt t \<noteq> vc c) (filter (\<lambda>c. kc c = kt t) cs))"
proof -
  let ?g = "\<lambda>t. map (\<lambda>c. (kt t, vc c, vt t))
              (filter (\<lambda>c. vt t \<noteq> vc c) (filter (\<lambda>c. kc c = kt t) cs))"
  have keyed: "fst r = kt y" if "r \<in> set (?g y)" for y r
    using that by auto
  show ?thesis
    using assms keyed by (rule filter_concat_map_key[where h = fst and f = kt and g = ?g])
qed

lemma join_cases:
  assumes sel: "R = map (\<lambda>c. (k, vc c, v))
                     (filter (\<lambda>c. v \<noteq> vc c) (filter (\<lambda>c. kc c = k) cs))"
    and keys: "distinct (map kc cs)"
  shows "(\<forall>c \<in> set cs. kc c = k \<and> v \<noteq> vc c \<longrightarrow> R = [(k, vc c, v)])
       \<and> (\<forall>c \<in> set cs. kc c = k \<and> v = vc c \<longrightarrow> R = [])
       \<and> (k \<notin> kc ` set cs \<longrightarrow> R = [])"
proof -
  have one: "filter (\<lambda>c'. kc c' = k) cs = [c]" if "c \<in> set cs" "kc c = k" for c
    using filter_key_distinct[OF keys that(1)] unfolding that(2) .
  have none: "filter (\<lambda>c'. kc c' = k) cs = []" if "k \<notin> kc ` set cs"
    using that by (rule filter_key_absent)
  have a: "R = [(k, vc c, v)]" if "c \<in> set cs" "kc c = k" "v \<noteq> vc c" for c
    unfolding sel one[OF that(1,2)] using that(3) by simp
  have b: "R = []" if "c \<in> set cs" "kc c = k" "v = vc c" for c
    unfolding sel one[OF that(1,2)] using that(3) by simp
  have c: "R = []" if "k \<notin> kc ` set cs"
    unfolding sel none[OF that] by simp
  show ?thesis
    using a b c by blast
qed

text \<open>
  C1. Conflict detection, run on the staged rows, with \<^verbatim>\<open>zoid\<close> the key of
  \<^verbatim>\<open>temp_store\<close>. In history-preserving mode, with \<^verbatim>\<open>zoid\<close> the key of
  \<^verbatim>\<open>current_object\<close>, for a staged row \<open>t\<close>: when the object has a current pointer
  \<open>c\<close> whose tid differs from the staged prior tid, the result holds exactly one tuple
  for the object, \<open>(zoid, current tid, staged prior tid)\<close>; when the staged prior tid
  equals the current tid it holds none; when the object has no current pointer it holds
  none. In history-free mode the same holds with the object's \<^verbatim>\<open>object_state\<close> row in
  the place of the current pointer.
\<close>

theorem detect_conflict_correct:
  assumes "distinct (map ts_zoid (temp_store d))"
    and "t \<in> set (temp_store d)"
  shows "(distinct (map co_zoid (current_object d)) \<longrightarrow>
           (\<forall>c \<in> set (current_object d).
              co_zoid c = ts_zoid t \<and> ts_prev_tid t \<noteq> co_tid c \<longrightarrow>
              filter (\<lambda>r. fst r = ts_zoid t) (detect_conflict True d)
                = [(ts_zoid t, co_tid c, ts_prev_tid t)])
         \<and> (\<forall>c \<in> set (current_object d).
              co_zoid c = ts_zoid t \<and> ts_prev_tid t = co_tid c \<longrightarrow>
              filter (\<lambda>r. fst r = ts_zoid t) (detect_conflict True d) = [])
         \<and> (ts_zoid t \<notin> co_zoid ` set (current_object d) \<longrightarrow>
              filter (\<lambda>r. fst r = ts_zoid t) (detect_conflict True d) = []))
       \<and> (distinct (map os_zoid (object_state d)) \<longrightarrow>
           (\<forall>s \<in> set (object_state d).
              os_zoid s = ts_zoid t \<and> ts_prev_tid t \<noteq> os_tid s \<longrightarrow>
              filter (\<lambda>r. fst r = ts_zoid t) (detect_conflict False d)
                = [(ts_zoid t, os_tid s, ts_prev_tid t)])
         \<and> (\<forall>s \<in> set (object_state d).
              os_zoid s = ts_zoid t \<and> ts_prev_tid t = os_tid s \<longrightarrow>
              filter (\<lambda>r. fst r = ts_zoid t) (detect_conflict False d) = [])
         \<and> (ts_zoid t \<notin> os_zoid ` set (object_state d) \<longrightarrow>
              filter (\<lambda>r. fst r = ts_zoid t) (detect_conflict False d) = []))"
proof (intro conjI impI)
  assume keys: "distinct (map co_zoid (current_object d))"
  have sel: "filter (\<lambda>r. fst r = ts_zoid t) (detect_conflict True d)
      = map (\<lambda>c. (ts_zoid t, co_tid c, ts_prev_tid t))
          (filter (\<lambda>c. ts_prev_tid t \<noteq> co_tid c)
             (filter (\<lambda>c. co_zoid c = ts_zoid t) (current_object d)))"
    unfolding detect_conflict_hp_unfold using assms by (rule join_select)
  from join_cases[OF sel keys]
  show "\<forall>c \<in> set (current_object d).
              co_zoid c = ts_zoid t \<and> ts_prev_tid t \<noteq> co_tid c \<longrightarrow>
              filter (\<lambda>r. fst r = ts_zoid t) (detect_conflict True d)
                = [(ts_zoid t, co_tid c, ts_prev_tid t)]"
    and "\<forall>c \<in> set (current_object d).
              co_zoid c = ts_zoid t \<and> ts_prev_tid t = co_tid c \<longrightarrow>
              filter (\<lambda>r. fst r = ts_zoid t) (detect_conflict True d) = []"
    and "ts_zoid t \<notin> co_zoid ` set (current_object d) \<Longrightarrow>
              filter (\<lambda>r. fst r = ts_zoid t) (detect_conflict True d) = []"
    by blast+
next
  assume keys: "distinct (map os_zoid (object_state d))"
  have sel: "filter (\<lambda>r. fst r = ts_zoid t) (detect_conflict False d)
      = map (\<lambda>s. (ts_zoid t, os_tid s, ts_prev_tid t))
          (filter (\<lambda>s. ts_prev_tid t \<noteq> os_tid s)
             (filter (\<lambda>s. os_zoid s = ts_zoid t) (object_state d)))"
    unfolding detect_conflict_hf_unfold using assms by (rule join_select)
  from join_cases[OF sel keys]
  show "\<forall>s \<in> set (object_state d).
              os_zoid s = ts_zoid t \<and> ts_prev_tid t \<noteq> os_tid s \<longrightarrow>
              filter (\<lambda>r. fst r = ts_zoid t) (detect_conflict False d)
                = [(ts_zoid t, os_tid s, ts_prev_tid t)]"
    and "\<forall>s \<in> set (object_state d).
              os_zoid s = ts_zoid t \<and> ts_prev_tid t = os_tid s \<longrightarrow>
              filter (\<lambda>r. fst r = ts_zoid t) (detect_conflict False d) = []"
    and "ts_zoid t \<notin> os_zoid ` set (object_state d) \<Longrightarrow>
              filter (\<lambda>r. fst r = ts_zoid t) (detect_conflict False d) = []"
    by blast+
qed

theorem detect_conflict_correct_witness:
  "filter (\<lambda>r. fst r = 7) (detect_conflict True example_db) = [(7, 100, 50)]
   \<and> filter (\<lambda>r. fst r = 8) (detect_conflict True example_db) = []
   \<and> filter (\<lambda>r. fst r = 9) (detect_conflict True example_db) = []
   \<and> filter (\<lambda>r. fst r = 7) (detect_conflict False example_db) = [(7, 100, 50)]"
proof -
  let ?t7 = "\<lparr>ts_zoid = 7, ts_prev_tid = 50, ts_md5 = None, ts_state = Some ''B''\<rparr>"
  let ?t8 = "\<lparr>ts_zoid = 8, ts_prev_tid = 200, ts_md5 = None, ts_state = Some ''C''\<rparr>"
  let ?t9 = "\<lparr>ts_zoid = 9, ts_prev_tid = 0, ts_md5 = None, ts_state = Some ''D''\<rparr>"
  let ?c7 = "\<lparr>co_zoid = 7, co_tid = 100\<rparr>" and ?c8 = "\<lparr>co_zoid = 8, co_tid = 200\<rparr>"
  let ?s7 = "\<lparr>os_zoid = 7, os_tid = 100, os_prev_tid = Some 50, os_md5 = None,
          os_state_size = 1, os_state = Some ''A''\<rparr>"
  have k1: "distinct (map ts_zoid (temp_store example_db))"
    and k2: "distinct (map co_zoid (current_object example_db))"
    and k3: "distinct (map os_zoid (object_state example_db))"
    by (simp_all add: example_db_def)
  have i7: "?t7 \<in> set (temp_store example_db)"
    and i8: "?t8 \<in> set (temp_store example_db)"
    and i9: "?t9 \<in> set (temp_store example_db)"
    by (simp_all add: example_db_def)
  have c7: "?c7 \<in> set (current_object example_db)"
    and c8: "?c8 \<in> set (current_object example_db)"
    and n9: "ts_zoid ?t9 \<notin> co_zoid ` set (current_object example_db)"
    and s7: "?s7 \<in> set (object_state example_db)"
    by (simp_all add: example_db_def)
  have p7: "co_zoid ?c7 = ts_zoid ?t7 \<and> ts_prev_tid ?t7 \<noteq> co_tid ?c7"
    and p8: "co_zoid ?c8 = ts_zoid ?t8 \<and> ts_prev_tid ?t8 = co_tid ?c8"
    and q7: "os_zoid ?s7 = ts_zoid ?t7 \<and> ts_prev_tid ?t7 \<noteq> os_tid ?s7"
    by simp_all
  from detect_conflict_correct[OF k1 i7] k2 c7 p7
  have "filter (\<lambda>r. fst r = ts_zoid ?t7) (detect_conflict True example_db)
      = [(ts_zoid ?t7, co_tid ?c7, ts_prev_tid ?t7)]"
    by blast
  then have 1: "filter (\<lambda>r. fst r = 7) (detect_conflict True example_db) = [(7, 100, 50)]"
    by simp
  from detect_conflict_correct[OF k1 i8] k2 c8 p8
  have "filter (\<lambda>r. fst r = ts_zoid ?t8) (detect_conflict True example_db) = []"
    by blast
  then have 2: "filter (\<lambda>r. fst r = 8) (detect_conflict True example_db) = []"
    by simp
  from detect_conflict_correct[OF k1 i9] k2 n9
  have "filter (\<lambda>r. fst r = ts_zoid ?t9) (detect_conflict True example_db) = []"
    by blast
  then have 3: "filter (\<lambda>r. fst r = 9) (detect_conflict True example_db) = []"
    by simp
  from detect_conflict_correct[OF k1 i7] k3 s7 q7
  have "filter (\<lambda>r. fst r = ts_zoid ?t7) (detect_conflict False example_db)
      = [(ts_zoid ?t7, os_tid ?s7, ts_prev_tid ?t7)]"
    by blast
  then have 4: "filter (\<lambda>r. fst r = 7) (detect_conflict False example_db) = [(7, 100, 50)]"
    by simp
  from 1 2 3 4 show ?thesis by simp
qed

section \<open>Commit mover: properties\<close>

lemma move_from_temp_temp_store:
  "temp_store (fst (move_from_temp keep_history tid txn_has_blobs d)) = temp_store d"
  by (simp add: move_from_temp_def Let_def move_from_temp_hp_insert_query_def
      move_from_temp_object_state_def move_from_temp_hf_insert_query_def
      move_from_temp_hf_delete_blob_chunk_query_def move_from_temp_copy_blob_query_def)

lemma move_from_temp_hp_object_state:
  "object_state (fst (move_from_temp True tid txn_has_blobs d)) =
     object_state d @
     map (\<lambda>t. \<lparr>os_zoid = ts_zoid t, os_tid = tid, os_prev_tid = Some (ts_prev_tid t),
                os_md5 = ts_md5 t, os_state_size = state_size (ts_state t),
                os_state = ts_state t\<rparr>) (temp_store d)"
  by (simp add: move_from_temp_def Let_def move_from_temp_hp_insert_query_def
      move_from_temp_copy_blob_query_def)

lemma move_from_temp_hf_object_state:
  "object_state (fst (move_from_temp False tid txn_has_blobs d)) =
     [s \<leftarrow> object_state d. os_zoid s \<notin> ts_zoid ` set (temp_store d)] @
     map (\<lambda>t. \<lparr>os_zoid = ts_zoid t, os_tid = tid, os_prev_tid = None,
                os_md5 = None, os_state_size = state_size (ts_state t),
                os_state = ts_state t\<rparr>) (temp_store d)"
  by (simp add: move_from_temp_def Let_def
      move_from_temp_object_state_def move_from_temp_hf_insert_query_def
      move_from_temp_hf_delete_blob_chunk_query_def move_from_temp_copy_blob_query_def)

lemma detect_conflict_hp_member:
  assumes "t \<in> set (temp_store d)" and "c \<in> set (current_object d)"
    and "co_zoid c = ts_zoid t" and "ts_prev_tid t \<noteq> co_tid c"
  shows "(ts_zoid t, co_tid c, ts_prev_tid t) \<in> set (detect_conflict True d)"
  unfolding detect_conflict_hp_unfold using assms by auto

text \<open>
  C2, as the code has it. In history-preserving mode \<^verbatim>\<open>move_from_temp\<close> appends to
  \<^verbatim>\<open>object_state\<close> one revision per staging record, with \<^verbatim>\<open>tid\<close> the given tid and
  \<^verbatim>\<open>prev_tid\<close> the staging record's \<^verbatim>\<open>prev_tid\<close>: the statement copies the column
  from \<^verbatim>\<open>temp_store\<close> and does not read \<^verbatim>\<open>current_object\<close>. When conflict detection
  reports nothing, the revision inserted for a staged object that has a current pointer
  carries that pointer's tid as its \<^verbatim>\<open>prev_tid\<close>.
\<close>

theorem move_from_temp_hp_revisions:
  "object_state (fst (move_from_temp True tid txn_has_blobs d)) =
     object_state d @
     map (\<lambda>t. \<lparr>os_zoid = ts_zoid t, os_tid = tid, os_prev_tid = Some (ts_prev_tid t),
                os_md5 = ts_md5 t, os_state_size = state_size (ts_state t),
                os_state = ts_state t\<rparr>) (temp_store d)
   \<and> (detect_conflict True d = [] \<longrightarrow>
        (\<forall>t \<in> set (temp_store d). \<forall>c \<in> set (current_object d).
           co_zoid c = ts_zoid t \<longrightarrow>
           \<lparr>os_zoid = ts_zoid t, os_tid = tid, os_prev_tid = Some (co_tid c),
            os_md5 = ts_md5 t, os_state_size = state_size (ts_state t),
            os_state = ts_state t\<rparr>
             \<in> set (object_state (fst (move_from_temp True tid txn_has_blobs d)))))"
proof (intro conjI impI ballI)
  show "object_state (fst (move_from_temp True tid txn_has_blobs d)) =
     object_state d @
     map (\<lambda>t. \<lparr>os_zoid = ts_zoid t, os_tid = tid, os_prev_tid = Some (ts_prev_tid t),
                os_md5 = ts_md5 t, os_state_size = state_size (ts_state t),
                os_state = ts_state t\<rparr>) (temp_store d)"
    by (rule move_from_temp_hp_object_state)
next
  fix t c
  assume nc: "detect_conflict True d = []"
    and t: "t \<in> set (temp_store d)" and c: "c \<in> set (current_object d)"
    and z: "co_zoid c = ts_zoid t"
  have "ts_prev_tid t = co_tid c"
  proof (rule ccontr)
    assume "ts_prev_tid t \<noteq> co_tid c"
    from detect_conflict_hp_member[OF t c z this] nc show False by simp
  qed
  with t show "\<lparr>os_zoid = ts_zoid t, os_tid = tid, os_prev_tid = Some (co_tid c),
            os_md5 = ts_md5 t, os_state_size = state_size (ts_state t),
            os_state = ts_state t\<rparr>
             \<in> set (object_state (fst (move_from_temp True tid txn_has_blobs d)))"
    unfolding move_from_temp_hp_object_state by auto
qed

theorem move_from_temp_hp_revisions_witness:
  "detect_conflict True (example_db\<lparr>temp_store :=
       [\<lparr>ts_zoid = 8, ts_prev_tid = 200, ts_md5 = None, ts_state = Some ''C''\<rparr>]\<rparr>) = []
   \<and> \<lparr>os_zoid = 8, os_tid = 300, os_prev_tid = Some 200, os_md5 = None,
       os_state_size = 1, os_state = Some ''C''\<rparr>
      \<in> set (object_state (fst (move_from_temp True 300 False (example_db\<lparr>temp_store :=
       [\<lparr>ts_zoid = 8, ts_prev_tid = 200, ts_md5 = None, ts_state = Some ''C''\<rparr>]\<rparr>))))"
proof -
  let ?t = "\<lparr>ts_zoid = 8, ts_prev_tid = 200, ts_md5 = None, ts_state = Some ''C''\<rparr>"
  let ?c = "\<lparr>co_zoid = 8, co_tid = 200\<rparr>"
  let ?d = "example_db\<lparr>temp_store := [?t]\<rparr>"
  have nc: "detect_conflict True ?d = []"
    by (simp add: detect_conflict_hp_unfold example_db_def)
  have t: "?t \<in> set (temp_store ?d)" by simp
  have c: "?c \<in> set (current_object ?d)" by (simp add: example_db_def)
  have z: "co_zoid ?c = ts_zoid ?t" by simp
  from move_from_temp_hp_revisions[of 300 False ?d] nc t c z
  have "\<lparr>os_zoid = ts_zoid ?t, os_tid = 300, os_prev_tid = Some (co_tid ?c),
            os_md5 = ts_md5 ?t, os_state_size = state_size (ts_state ?t),
            os_state = ts_state ?t\<rparr>
             \<in> set (object_state (fst (move_from_temp True 300 False ?d)))"
    by blast
  then have "\<lparr>os_zoid = 8, os_tid = 300, os_prev_tid = Some 200, os_md5 = None,
       os_state_size = 1, os_state = Some ''C''\<rparr>
      \<in> set (object_state (fst (move_from_temp True 300 False ?d)))"
    by (simp add: state_size_def)
  with nc show ?thesis by simp
qed

text \<open>
  The claim as written fails. In \<open>example_db\<close> the current pointer of object 7 is 100
  and object 10 has no current pointer; the revisions that \<^verbatim>\<open>move_from_temp\<close> inserts
  for them carry the staged prior tids 50 and 40, not 100 and 0.
\<close>

theorem move_from_temp_prev_tid_counterexample:
  "[co_tid c. c \<leftarrow> current_object example_db, co_zoid c = 7] = [100]
   \<and> [co_tid c. c \<leftarrow> current_object example_db, co_zoid c = 10] = []
   \<and> [os_prev_tid s. s \<leftarrow> object_state (fst (move_from_temp True 300 False example_db)),
         os_zoid s = 7 \<and> os_tid s = 300] = [Some 50]
   \<and> [os_prev_tid s. s \<leftarrow> object_state (fst (move_from_temp True 300 False example_db)),
         os_zoid s = 10 \<and> os_tid s = 300] = [Some 40]"
  by (simp add: move_from_temp_hp_object_state example_db_def)

text \<open>
  C3. In history-free mode \<^verbatim>\<open>move_from_temp\<close> deletes every \<^verbatim>\<open>object_state\<close> row
  whose \<^verbatim>\<open>zoid\<close> is staged and then adds one row per staged row, with the given tid.
  So after a first commit (of anything) and a second commit whose staging holds one row
  \<open>t\<close> per object (\<^verbatim>\<open>zoid\<close> is the key of \<^verbatim>\<open>temp_store\<close>), \<^verbatim>\<open>object_state\<close> holds
  exactly one row for the object of \<open>t\<close>, with the second commit's tid. Between the two
  commits the staging tables are those of the next transaction.
\<close>

theorem move_from_temp_hf_replaces:
  "object_state (fst (move_from_temp False tid txn_has_blobs d)) =
     [s \<leftarrow> object_state d. os_zoid s \<notin> ts_zoid ` set (temp_store d)] @
     map (\<lambda>t. \<lparr>os_zoid = ts_zoid t, os_tid = tid, os_prev_tid = None,
                os_md5 = None, os_state_size = state_size (ts_state t),
                os_state = ts_state t\<rparr>) (temp_store d)
   \<and> (distinct (map ts_zoid staged2) \<and> t \<in> set staged2 \<longrightarrow>
        [s \<leftarrow> object_state (fst (move_from_temp False tid2 blobs2
              ((fst (move_from_temp False tid txn_has_blobs d))
                 \<lparr>temp_store := staged2, temp_blob_chunk := staged_chunks2\<rparr>))).
           os_zoid s = ts_zoid t]
        = [\<lparr>os_zoid = ts_zoid t, os_tid = tid2, os_prev_tid = None,
            os_md5 = None, os_state_size = state_size (ts_state t),
            os_state = ts_state t\<rparr>])"
proof (intro conjI impI)
  show "object_state (fst (move_from_temp False tid txn_has_blobs d)) =
     [s \<leftarrow> object_state d. os_zoid s \<notin> ts_zoid ` set (temp_store d)] @
     map (\<lambda>t. \<lparr>os_zoid = ts_zoid t, os_tid = tid, os_prev_tid = None,
                os_md5 = None, os_state_size = state_size (ts_state t),
                os_state = ts_state t\<rparr>) (temp_store d)"
    by (rule move_from_temp_hf_object_state)
next
  assume a: "distinct (map ts_zoid staged2) \<and> t \<in> set staged2"
  let ?row = "\<lambda>t. \<lparr>os_zoid = ts_zoid t, os_tid = tid2, os_prev_tid = None,
                os_md5 = None, os_state_size = state_size (ts_state t),
                os_state = ts_state t\<rparr>"
  let ?d1 = "(fst (move_from_temp False tid txn_has_blobs d))
                 \<lparr>temp_store := staged2, temp_blob_chunk := staged_chunks2\<rparr>"
  have old: "[s \<leftarrow> [s \<leftarrow> object_state ?d1. os_zoid s \<notin> ts_zoid ` set staged2].
                os_zoid s = ts_zoid t] = []"
    using a by (auto simp: filter_empty_conv)
  have "[s \<leftarrow> map ?row staged2. os_zoid s = ts_zoid t]
          = map ?row [r \<leftarrow> staged2. ts_zoid r = ts_zoid t]"
    by (simp add: filter_map comp_def)
  also have "\<dots> = map ?row [t]"
    using a filter_key_distinct[of ts_zoid staged2 t] by simp
  finally have new: "[s \<leftarrow> map ?row staged2. os_zoid s = ts_zoid t] = [?row t]"
    by simp
  have "object_state (fst (move_from_temp False tid2 blobs2 ?d1)) =
      [s \<leftarrow> object_state ?d1. os_zoid s \<notin> ts_zoid ` set staged2] @ map ?row staged2"
    unfolding move_from_temp_hf_object_state by simp
  then show "[s \<leftarrow> object_state (fst (move_from_temp False tid2 blobs2 ?d1)).
           os_zoid s = ts_zoid t] = [?row t]"
    using old new by (simp del: filter_filter)
qed

theorem move_from_temp_hf_replaces_witness:
  "[s \<leftarrow> object_state (fst (move_from_temp False 400 False
       ((fst (move_from_temp False 300 False example_db))
          \<lparr>temp_store := [\<lparr>ts_zoid = 7, ts_prev_tid = 300, ts_md5 = None, ts_state = Some ''E''\<rparr>],
           temp_blob_chunk := []\<rparr>))).
     os_zoid s = 7]
   = [\<lparr>os_zoid = 7, os_tid = 400, os_prev_tid = None, os_md5 = None,
       os_state_size = 1, os_state = Some ''E''\<rparr>]"
proof -
  let ?t = "\<lparr>ts_zoid = 7, ts_prev_tid = 300, ts_md5 = None, ts_state = Some ''E''\<rparr>"
  have a: "distinct (map ts_zoid [?t]) \<and> ?t \<in> set [?t]" by simp
  from move_from_temp_hf_replaces[of 300 False example_db "[?t]" ?t 400 False "[]"] a
  have "[s \<leftarrow> object_state (fst (move_from_temp False 400 False
       ((fst (move_from_temp False 300 False example_db))
          \<lparr>temp_store := [?t], temp_blob_chunk := []\<rparr>))).
     os_zoid s = ts_zoid ?t]
   = [\<lparr>os_zoid = ts_zoid ?t, os_tid = 400, os_prev_tid = None, os_md5 = None,
       os_state_size = state_size (ts_state ?t), os_state = ts_state ?t\<rparr>]"
    by blast
  then show ?thesis by (simp add: state_size_def)
qed

text \<open>
  C4. In both modes \<^verbatim>\<open>move_from_temp\<close> returns the \<^verbatim>\<open>zoid\<close> column of \<^verbatim>\<open>temp_store\<close>
  as it was at the call, row by row: every staged object id and no other.
\<close>

theorem move_from_temp_returns_staged:
  "snd (move_from_temp keep_history tid txn_has_blobs d) = map ts_zoid (temp_store d)"
  by (simp add: move_from_temp_def Let_def fetchmany_def move_from_temp_hp_insert_query_def
      move_from_temp_object_state_def move_from_temp_hf_insert_query_def
      move_from_temp_hf_delete_blob_chunk_query_def move_from_temp_copy_blob_query_def)

section \<open>Replacing a staged row: properties\<close>

lemma replace_temp_temp_store:
  "temp_store (replace_temp md5hex keep_history d oid prev_tid data)
     = map (\<lambda>r. if ts_zoid r = oid
                 then r\<lparr>ts_prev_tid := prev_tid,
                        ts_md5 := compute_md5sum md5hex keep_history (Some data),
                        ts_state := Binary data\<rparr>
                 else r) (temp_store d)"
  by (simp add: replace_temp_def Let_def)

lemma replace_row_zoids:
  "map ts_zoid (map (\<lambda>r. if ts_zoid r = oid
                 then r\<lparr>ts_prev_tid := p, ts_md5 := m, ts_state := s\<rparr>
                 else r) rows) = map ts_zoid rows"
  by (induction rows) simp_all

lemma replace_row_others:
  "[r \<leftarrow> map (\<lambda>r. if ts_zoid r = oid
                 then r\<lparr>ts_prev_tid := p, ts_md5 := m, ts_state := s\<rparr>
                 else r) rows. ts_zoid r \<noteq> oid] = [r \<leftarrow> rows. ts_zoid r \<noteq> oid]"
  by (induction rows) simp_all

lemma replace_row_absent:
  "oid \<notin> ts_zoid ` set rows \<Longrightarrow> map (\<lambda>r. if ts_zoid r = oid
                 then r\<lparr>ts_prev_tid := p, ts_md5 := m, ts_state := s\<rparr>
                 else r) rows = rows"
  by (induction rows) simp_all

lemma replace_row_fields:
  assumes "r \<in> set (map (\<lambda>r. if ts_zoid r = oid
                 then r\<lparr>ts_prev_tid := p, ts_md5 := m, ts_state := s\<rparr>
                 else r) rows)"
    and "ts_zoid r = oid"
  shows "ts_prev_tid r = p \<and> ts_md5 r = m \<and> ts_state r = s"
proof -
  let ?f = "\<lambda>r. if ts_zoid r = oid
                 then r\<lparr>ts_prev_tid := p, ts_md5 := m, ts_state := s\<rparr>
                 else r"
  from assms(1) have "r \<in> ?f ` set rows"
    by (simp only: set_map)
  then obtain r0 where r0: "r = ?f r0"
    by (rule imageE)
  show ?thesis
  proof (cases "ts_zoid r0 = oid")
    case True
    with r0 have "r = r0\<lparr>ts_prev_tid := p, ts_md5 := m, ts_state := s\<rparr>"
      by simp
    then show ?thesis by simp
  next
    case False
    with r0 have "r = r0" by simp
    with False assms(2) show ?thesis by simp
  qed
qed

text \<open>
  C8. \<^verbatim>\<open>replace_temp\<close> keeps the rows of \<^verbatim>\<open>temp_store\<close> and their \<^verbatim>\<open>zoid\<close>s as they
  are, row by row (no row is added, none removed); the rows of other objects are
  unchanged; every row of the object has the new prior tid, fingerprint and state; when
  the object has no staged row, \<^verbatim>\<open>temp_store\<close> is unchanged; and the staged blob chunks
  and the other tables are unchanged.
\<close>

theorem replace_temp_frame:
  "map ts_zoid (temp_store (replace_temp md5hex keep_history d oid prev_tid data))
     = map ts_zoid (temp_store d)
   \<and> [r \<leftarrow> temp_store (replace_temp md5hex keep_history d oid prev_tid data). ts_zoid r \<noteq> oid]
     = [r \<leftarrow> temp_store d. ts_zoid r \<noteq> oid]
   \<and> (\<forall>r \<in> set (temp_store (replace_temp md5hex keep_history d oid prev_tid data)).
        ts_zoid r = oid \<longrightarrow>
        ts_prev_tid r = prev_tid
        \<and> ts_md5 r = compute_md5sum md5hex keep_history (Some data)
        \<and> ts_state r = Binary data)
   \<and> (oid \<notin> ts_zoid ` set (temp_store d) \<longrightarrow>
        temp_store (replace_temp md5hex keep_history d oid prev_tid data) = temp_store d)
   \<and> temp_blob_chunk (replace_temp md5hex keep_history d oid prev_tid data) = temp_blob_chunk d
   \<and> object_state (replace_temp md5hex keep_history d oid prev_tid data) = object_state d
   \<and> current_object (replace_temp md5hex keep_history d oid prev_tid data) = current_object d
   \<and> blob_chunk (replace_temp md5hex keep_history d oid prev_tid data) = blob_chunk d"
proof (intro conjI ballI impI)
  show "map ts_zoid (temp_store (replace_temp md5hex keep_history d oid prev_tid data))
     = map ts_zoid (temp_store d)"
    unfolding replace_temp_temp_store by (rule replace_row_zoids)
  show "[r \<leftarrow> temp_store (replace_temp md5hex keep_history d oid prev_tid data). ts_zoid r \<noteq> oid]
     = [r \<leftarrow> temp_store d. ts_zoid r \<noteq> oid]"
    unfolding replace_temp_temp_store by (rule replace_row_others)
  show "temp_store (replace_temp md5hex keep_history d oid prev_tid data) = temp_store d"
    if "oid \<notin> ts_zoid ` set (temp_store d)"
    unfolding replace_temp_temp_store using that by (rule replace_row_absent)
  show "temp_blob_chunk (replace_temp md5hex keep_history d oid prev_tid data) = temp_blob_chunk d"
    by (simp add: replace_temp_def Let_def)
  show "object_state (replace_temp md5hex keep_history d oid prev_tid data) = object_state d"
    by (simp add: replace_temp_def Let_def)
  show "current_object (replace_temp md5hex keep_history d oid prev_tid data) = current_object d"
    by (simp add: replace_temp_def Let_def)
  show "blob_chunk (replace_temp md5hex keep_history d oid prev_tid data) = blob_chunk d"
    by (simp add: replace_temp_def Let_def)
next
  fix r
  assume r: "r \<in> set (temp_store (replace_temp md5hex keep_history d oid prev_tid data))"
    and z: "ts_zoid r = oid"
  from replace_row_fields[OF r[unfolded replace_temp_temp_store] z]
  show "ts_prev_tid r = prev_tid" and "ts_md5 r = compute_md5sum md5hex keep_history (Some data)"
    and "ts_state r = Binary data"
    by simp_all
qed

theorem replace_temp_frame_witness:
  "temp_store (replace_temp (\<lambda>b. ''digest'') True example_db 7 100 ''R'')
     = [\<lparr>ts_zoid = 7, ts_prev_tid = 100, ts_md5 = Some ''digest'', ts_state = Some ''R''\<rparr>,
        \<lparr>ts_zoid = 8, ts_prev_tid = 200, ts_md5 = None, ts_state = Some ''C''\<rparr>,
        \<lparr>ts_zoid = 9, ts_prev_tid = 0, ts_md5 = None, ts_state = Some ''D''\<rparr>,
        \<lparr>ts_zoid = 10, ts_prev_tid = 40, ts_md5 = None, ts_state = None\<rparr>]
   \<and> map ts_zoid (temp_store (replace_temp (\<lambda>b. ''digest'') True example_db 7 100 ''R''))
     = [7, 8, 9, 10]
   \<and> temp_store (replace_temp (\<lambda>b. ''digest'') True example_db 11 100 ''R'')
     = temp_store example_db
   \<and> temp_blob_chunk (replace_temp (\<lambda>b. ''digest'') True example_db 7 100 ''R'')
     = [\<lparr>tb_zoid = 7, tb_chunk_num = 0, tb_chunk = ''y''\<rparr>]"
proof -
  have a: "11 \<notin> ts_zoid ` set (temp_store example_db)"
    by (simp add: example_db_def)
  have b: "temp_store (replace_temp (\<lambda>b. ''digest'') True example_db 7 100 ''R'')
     = [\<lparr>ts_zoid = 7, ts_prev_tid = 100, ts_md5 = Some ''digest'', ts_state = Some ''R''\<rparr>,
        \<lparr>ts_zoid = 8, ts_prev_tid = 200, ts_md5 = None, ts_state = Some ''C''\<rparr>,
        \<lparr>ts_zoid = 9, ts_prev_tid = 0, ts_md5 = None, ts_state = Some ''D''\<rparr>,
        \<lparr>ts_zoid = 10, ts_prev_tid = 40, ts_md5 = None, ts_state = None\<rparr>]"
    by (simp add: replace_temp_def Let_def example_db_def compute_md5sum_def
        noop_when_history_free_def Binary_def)
  from replace_temp_frame[of "\<lambda>b. ''digest''" True example_db 11 100 "''R''"] a
  have c: "temp_store (replace_temp (\<lambda>b. ''digest'') True example_db 11 100 ''R'')
     = temp_store example_db"
    by blast
  from replace_temp_frame[of "\<lambda>b. ''digest''" True example_db 7 100 "''R''"]
  have d: "map ts_zoid (temp_store (replace_temp (\<lambda>b. ''digest'') True example_db 7 100 ''R''))
     = map ts_zoid (temp_store example_db)"
    and e: "temp_blob_chunk (replace_temp (\<lambda>b. ''digest'') True example_db 7 100 ''R'')
     = temp_blob_chunk example_db"
    by blast+
  have f: "map ts_zoid (temp_store example_db) = [7, 8, 9, 10]"
    "temp_blob_chunk example_db = [\<lparr>tb_zoid = 7, tb_chunk_num = 0, tb_chunk = ''y''\<rparr>]"
    by (simp_all add: example_db_def)
  show ?thesis
    using b c d e f by simp
qed

section \<open>Reader: properties\<close>

lemma load_revision_rows:
  "load_revision_query d oid tid =
     map os_state [s \<leftarrow> object_state d. os_zoid s = oid \<and> os_tid s = tid]"
  unfolding load_revision_query_def by (rule concat_map_if_single)

lemma load_revision_None:
  assumes "\<And>s. s \<in> set (object_state d) \<Longrightarrow> os_zoid s = oid \<Longrightarrow> os_tid s = tid
            \<Longrightarrow> os_state s = None"
  shows "load_revision d oid tid = None"
proof (cases "[s \<leftarrow> object_state d. os_zoid s = oid \<and> os_tid s = tid]")
  case Nil
  then show ?thesis
    by (simp add: load_revision_def load_revision_rows fetchone_def)
next
  case (Cons s rest)
  then have "s \<in> set [s \<leftarrow> object_state d. os_zoid s = oid \<and> os_tid s = tid]"
    by simp
  then have "s \<in> set (object_state d)" "os_zoid s = oid" "os_tid s = tid"
    by simp_all
  then have "os_state s = None"
    by (rule assms)
  with Cons show ?thesis
    by (simp add: load_revision_def load_revision_rows fetchone_def
        binary_column_as_state_type_def)
qed

lemma fetchone_Nil: "fetchone [] = None"
  by (simp add: fetchone_def)

lemma fetchone_Cons: "fetchone (r # rows) = Some r"
  by (simp add: fetchone_def)

lemma load_current_tid_None:
  "snd (load_current keep_history d oid) = None
     \<longleftrightarrow> query_property keep_history load_current_queries d oid = []"
proof (cases "query_property keep_history load_current_queries d oid")
  case Nil
  then show ?thesis
    by (simp add: load_current_def fetchone_Nil)
next
  case (Cons row rows)
  then show ?thesis
    by (cases row) (simp add: load_current_def fetchone_Cons)
qed

lemma load_current_hf_rows:
  "query_property False load_current_queries d oid =
     map (\<lambda>s. (os_state s, os_tid s)) [s \<leftarrow> object_state d. os_zoid s = oid]"
  by (simp add: query_property_def load_current_queries_def concat_map_if_single)

lemma load_current_hp_rows:
  "query_property True load_current_queries d oid =
     concat (map (\<lambda>c. map (\<lambda>s. (os_state s, os_tid s))
        [s \<leftarrow> [s \<leftarrow> object_state d. os_zoid s = co_zoid c \<and> os_tid s = co_tid c].
           co_zoid c = oid]) (current_object d))"
  by (simp add: query_property_def load_current_queries_def concat_map_if_singleton
      del: filter_filter)

text \<open>
  C10. \<^verbatim>\<open>load_revision\<close> returns \<open>None\<close> when \<^verbatim>\<open>object_state\<close> has no row for the
  object at the tid, and also when the rows it has there carry a \<^verbatim>\<open>NULL\<close> state (the
  object's creation was undone): the one result stands for both. \<^verbatim>\<open>load_current\<close>
  tells the two apart: the tid it returns is \<open>None\<close> exactly when the statement finds
  no row, whatever the state of a row it finds.
\<close>

theorem load_revision_absent_or_undone:
  "((\<forall>s \<in> set (object_state d). \<not> (os_zoid s = oid \<and> os_tid s = tid))
       \<longrightarrow> load_revision d oid tid = None)
   \<and> ((\<forall>s \<in> set (object_state d). os_zoid s = oid \<and> os_tid s = tid \<longrightarrow> os_state s = None)
       \<longrightarrow> load_revision d oid tid = None)
   \<and> (snd (load_current False d oid) = None
       \<longleftrightarrow> (\<forall>s \<in> set (object_state d). os_zoid s \<noteq> oid))
   \<and> (snd (load_current True d oid) = None
       \<longleftrightarrow> (\<forall>c \<in> set (current_object d). \<forall>s \<in> set (object_state d).
              \<not> (co_zoid c = oid \<and> os_zoid s = oid \<and> os_tid s = co_tid c)))"
proof (intro conjI impI)
  assume "\<forall>s \<in> set (object_state d). \<not> (os_zoid s = oid \<and> os_tid s = tid)"
  then show "load_revision d oid tid = None"
    by (intro load_revision_None) blast
next
  assume "\<forall>s \<in> set (object_state d). os_zoid s = oid \<and> os_tid s = tid \<longrightarrow> os_state s = None"
  then show "load_revision d oid tid = None"
    by (intro load_revision_None) blast
next
  show "snd (load_current False d oid) = None
       \<longleftrightarrow> (\<forall>s \<in> set (object_state d). os_zoid s \<noteq> oid)"
    unfolding load_current_tid_None load_current_hf_rows
    by (simp add: filter_empty_conv)
next
  show "snd (load_current True d oid) = None
       \<longleftrightarrow> (\<forall>c \<in> set (current_object d). \<forall>s \<in> set (object_state d).
              \<not> (co_zoid c = oid \<and> os_zoid s = oid \<and> os_tid s = co_tid c))"
    unfolding load_current_tid_None load_current_hp_rows
    by (simp add: filter_empty_conv) blast
qed

theorem load_revision_absent_or_undone_witness:
  "load_revision example_db 9 200 = None
   \<and> load_revision example_db 8 200 = None
   \<and> load_current True example_db 9 = (None, None)
   \<and> load_current True example_db 8 = (None, Some 200)"
proof -
  have a: "\<forall>s \<in> set (object_state example_db). \<not> (os_zoid s = 9 \<and> os_tid s = 200)"
    by (simp add: example_db_def)
  have b: "\<forall>s \<in> set (object_state example_db).
             os_zoid s = 8 \<and> os_tid s = 200 \<longrightarrow> os_state s = None"
    by (simp add: example_db_def)
  from load_revision_absent_or_undone[of example_db 9 200] a
  have 1: "load_revision example_db 9 200 = None" by blast
  from load_revision_absent_or_undone[of example_db 8 200] b
  have 2: "load_revision example_db 8 200 = None" by blast
  have 3: "load_current True example_db 9 = (None, None)"
    by (simp add: load_current_def load_current_hp_rows fetchone_def example_db_def)
  have 4: "load_current True example_db 8 = (None, Some 200)"
    by (simp add: load_current_def load_current_hp_rows fetchone_def example_db_def
        binary_column_as_state_type_def)
  from 1 2 3 4 show ?thesis by simp
qed

section \<open>Current-pointer updater: properties\<close>

lemma update_current_hp_current_object:
  "current_object (update_current True tid d) =
     map (\<lambda>c. if co_zoid c \<in> os_zoid ` {s \<in> set (object_state d).
                      os_tid s = tid \<and> (\<exists>p. os_prev_tid s = Some p \<and> p \<noteq> 0)}
               then c\<lparr>co_tid := tid\<rparr> else c)
         (current_object d @
          map (\<lambda>s. \<lparr>co_zoid = os_zoid s, co_tid = os_tid s\<rparr>)
              [s \<leftarrow> object_state d. os_tid s = tid \<and> os_prev_tid s = Some 0])"
proof -
  let ?d1 = "update_current_insert_query tid d"
  have os: "object_state ?d1 = object_state d"
    by (simp add: update_current_insert_query_def)
  have co: "current_object ?d1 = current_object d @
          map (\<lambda>s. \<lparr>co_zoid = os_zoid s, co_tid = os_tid s\<rparr>)
              [s \<leftarrow> object_state d. os_tid s = tid \<and> os_prev_tid s = Some 0]"
    by (simp add: update_current_insert_query_def concat_map_if_single)
  have sel: "set (sort [os_zoid s. s \<leftarrow> object_state d,
                 os_tid s = tid \<and> (case os_prev_tid s of None \<Rightarrow> False | Some p \<Rightarrow> p \<noteq> 0)])
      = os_zoid ` {s \<in> set (object_state d).
                      os_tid s = tid \<and> (\<exists>p. os_prev_tid s = Some p \<and> p \<noteq> 0)}"
    by (auto simp: concat_map_if_single split: option.splits)
  have "current_object (update_current True tid d)
      = map (\<lambda>c. if co_zoid c \<in> set (sort [os_zoid s. s \<leftarrow> object_state ?d1,
                 os_tid s = tid \<and> (case os_prev_tid s of None \<Rightarrow> False | Some p \<Rightarrow> p \<noteq> 0)])
               then c\<lparr>co_tid := tid\<rparr> else c) (current_object ?d1)"
    by (simp add: update_current_def noop_when_history_free_def update_current_update_query_def)
  then show ?thesis
    unfolding os co sel .
qed

lemma update_current_hp_frame:
  "object_state (update_current True tid d) = object_state d"
  "temp_store (update_current True tid d) = temp_store d"
  "blob_chunk (update_current True tid d) = blob_chunk d"
  "temp_blob_chunk (update_current True tid d) = temp_blob_chunk d"
  by (simp_all add: update_current_def noop_when_history_free_def
      update_current_update_query_def update_current_insert_query_def)

lemma pointer_update_zoids:
  "map co_zoid (map (\<lambda>c. if co_zoid c \<in> U then c\<lparr>co_tid := tid\<rparr> else c) rows)
     = map co_zoid rows"
  by (induction rows) simp_all

lemma pointer_update_hit:
  assumes "c \<in> set (map (\<lambda>c. if co_zoid c \<in> U then c\<lparr>co_tid := tid\<rparr> else c) rows)"
    and "co_zoid c \<in> U"
  shows "co_tid c = tid"
proof -
  let ?f = "\<lambda>c. if co_zoid c \<in> U then c\<lparr>co_tid := tid\<rparr> else c"
  from assms(1) have "c \<in> ?f ` set rows"
    by (simp only: set_map)
  then obtain c0 where c0: "c = ?f c0"
    by (rule imageE)
  show ?thesis
  proof (cases "co_zoid c0 \<in> U")
    case True
    with c0 have "c = c0\<lparr>co_tid := tid\<rparr>" by simp
    then show ?thesis by simp
  next
    case False
    with c0 have "c = c0" by simp
    with False assms(2) show ?thesis by simp
  qed
qed

lemma pointer_update_same_tid:
  assumes "c \<in> set rows" and "co_tid c = tid"
  shows "c \<in> set (map (\<lambda>c. if co_zoid c \<in> U then c\<lparr>co_tid := tid\<rparr> else c) rows)"
proof -
  have "(if co_zoid c \<in> U then c\<lparr>co_tid := tid\<rparr> else c) = c"
    using assms(2) by simp
  then have "c = (\<lambda>c. if co_zoid c \<in> U then c\<lparr>co_tid := tid\<rparr> else c) c"
    by simp
  with assms(1) have "c \<in> (\<lambda>c. if co_zoid c \<in> U then c\<lparr>co_tid := tid\<rparr> else c) ` set rows"
    by (rule rev_image_eqI)
  then show ?thesis
    by (simp only: set_map)
qed

lemma pointer_update_moves:
  assumes "c \<in> set rows" and "co_zoid c \<in> U"
  shows "\<lparr>co_zoid = co_zoid c, co_tid = tid\<rparr>
           \<in> set (map (\<lambda>c. if co_zoid c \<in> U then c\<lparr>co_tid := tid\<rparr> else c) rows)"
proof -
  let ?f = "\<lambda>c. if co_zoid c \<in> U then c\<lparr>co_tid := tid\<rparr> else c"
  have "?f c = \<lparr>co_zoid = co_zoid c, co_tid = tid\<rparr>"
    using assms(2) by (cases c) simp
  then have "\<lparr>co_zoid = co_zoid c, co_tid = tid\<rparr> = ?f c"
    by simp
  with assms(1) have "\<lparr>co_zoid = co_zoid c, co_tid = tid\<rparr> \<in> ?f ` set rows"
    by (rule rev_image_eqI)
  then show ?thesis
    by (simp only: set_map)
qed

text \<open>
  C5, as the code has it. In history-free mode \<^verbatim>\<open>update_current\<close> returns the state as it got it. In
  history-preserving mode it adds one current-pointer row \<open>(zoid, tid)\<close> for every
  \<^verbatim>\<open>object_state\<close> row of the transaction whose \<^verbatim>\<open>prev_tid\<close> is 0, and no other row;
  for an object that has an \<^verbatim>\<open>object_state\<close> row of the transaction with a
  \<^verbatim>\<open>prev_tid\<close> other than 0, every current-pointer row of the object points to \<open>tid\<close>
  afterwards, and when the object had a current-pointer row before, it has the pointer
  \<open>(zoid, tid)\<close> afterwards. The \<^verbatim>\<open>UPDATE\<close> makes no row: such an object that had no
  current-pointer row has none afterwards (the \<^verbatim>\<open>zoid\<close>s of the table are those it
  had, followed by those of the rows with \<^verbatim>\<open>prev_tid\<close> 0). The other tables are
  unchanged.
\<close>

theorem update_current_by_mode:
  "update_current False tid d = d
   \<and> map co_zoid (current_object (update_current True tid d))
     = map co_zoid (current_object d)
       @ [os_zoid s. s \<leftarrow> object_state d, os_tid s = tid \<and> os_prev_tid s = Some 0]
   \<and> (\<forall>s \<in> set (object_state d). os_tid s = tid \<and> os_prev_tid s = Some 0 \<longrightarrow>
        \<lparr>co_zoid = os_zoid s, co_tid = tid\<rparr> \<in> set (current_object (update_current True tid d)))
   \<and> (\<forall>s \<in> set (object_state d).
        os_tid s = tid \<and> (\<exists>p. os_prev_tid s = Some p \<and> p \<noteq> 0) \<longrightarrow>
        (\<forall>c \<in> set (current_object (update_current True tid d)).
           co_zoid c = os_zoid s \<longrightarrow> co_tid c = tid))
   \<and> (\<forall>s \<in> set (object_state d).
        os_tid s = tid \<and> (\<exists>p. os_prev_tid s = Some p \<and> p \<noteq> 0) \<longrightarrow>
        (\<forall>c \<in> set (current_object d).
           co_zoid c = os_zoid s \<longrightarrow>
           \<lparr>co_zoid = os_zoid s, co_tid = tid\<rparr>
             \<in> set (current_object (update_current True tid d))))
   \<and> object_state (update_current True tid d) = object_state d
   \<and> temp_store (update_current True tid d) = temp_store d
   \<and> blob_chunk (update_current True tid d) = blob_chunk d
   \<and> temp_blob_chunk (update_current True tid d) = temp_blob_chunk d"
proof (intro conjI ballI impI)
  show "update_current False tid d = d"
    by (simp add: update_current_def noop_when_history_free_def)
  show "map co_zoid (current_object (update_current True tid d))
     = map co_zoid (current_object d)
       @ [os_zoid s. s \<leftarrow> object_state d, os_tid s = tid \<and> os_prev_tid s = Some 0]"
    unfolding update_current_hp_current_object pointer_update_zoids
    by (simp add: concat_map_if_single comp_def)
  show "object_state (update_current True tid d) = object_state d"
    "temp_store (update_current True tid d) = temp_store d"
    "blob_chunk (update_current True tid d) = blob_chunk d"
    "temp_blob_chunk (update_current True tid d) = temp_blob_chunk d"
    by (rule update_current_hp_frame)+
next
  fix s
  assume s: "s \<in> set (object_state d)" and new: "os_tid s = tid \<and> os_prev_tid s = Some 0"
  let ?rows = "current_object d @
          map (\<lambda>s. \<lparr>co_zoid = os_zoid s, co_tid = os_tid s\<rparr>)
              [s \<leftarrow> object_state d. os_tid s = tid \<and> os_prev_tid s = Some 0]"
  have "\<lparr>co_zoid = os_zoid s, co_tid = os_tid s\<rparr> \<in> set ?rows"
    using s new by simp
  with new have "\<lparr>co_zoid = os_zoid s, co_tid = tid\<rparr> \<in> set ?rows"
    by simp
  then show "\<lparr>co_zoid = os_zoid s, co_tid = tid\<rparr>
      \<in> set (current_object (update_current True tid d))"
    unfolding update_current_hp_current_object
    by (rule pointer_update_same_tid) simp
next
  fix s c
  assume s: "s \<in> set (object_state d)"
    and old: "os_tid s = tid \<and> (\<exists>p. os_prev_tid s = Some p \<and> p \<noteq> 0)"
    and c: "c \<in> set (current_object (update_current True tid d))"
    and z: "co_zoid c = os_zoid s"
  let ?U = "os_zoid ` {s \<in> set (object_state d).
                      os_tid s = tid \<and> (\<exists>p. os_prev_tid s = Some p \<and> p \<noteq> 0)}"
  from s old have "s \<in> {s \<in> set (object_state d).
                      os_tid s = tid \<and> (\<exists>p. os_prev_tid s = Some p \<and> p \<noteq> 0)}"
    by simp
  then have "os_zoid s \<in> ?U"
    by (rule imageI)
  with z have "co_zoid c \<in> ?U" by simp
  with c[unfolded update_current_hp_current_object] show "co_tid c = tid"
    by (rule pointer_update_hit)
next
  fix s c
  assume s: "s \<in> set (object_state d)"
    and old: "os_tid s = tid \<and> (\<exists>p. os_prev_tid s = Some p \<and> p \<noteq> 0)"
    and c: "c \<in> set (current_object d)"
    and z: "co_zoid c = os_zoid s"
  let ?U = "os_zoid ` {s \<in> set (object_state d).
                      os_tid s = tid \<and> (\<exists>p. os_prev_tid s = Some p \<and> p \<noteq> 0)}"
  let ?rows = "current_object d @
          map (\<lambda>s. \<lparr>co_zoid = os_zoid s, co_tid = os_tid s\<rparr>)
              [s \<leftarrow> object_state d. os_tid s = tid \<and> os_prev_tid s = Some 0]"
  from s old have "s \<in> {s \<in> set (object_state d).
                      os_tid s = tid \<and> (\<exists>p. os_prev_tid s = Some p \<and> p \<noteq> 0)}"
    by simp
  then have "os_zoid s \<in> ?U"
    by (rule imageI)
  with z have u: "co_zoid c \<in> ?U" by simp
  from c have "c \<in> set ?rows" by simp
  from pointer_update_moves[OF this u, of tid] z
  show "\<lparr>co_zoid = os_zoid s, co_tid = tid\<rparr>
      \<in> set (current_object (update_current True tid d))"
    unfolding update_current_hp_current_object by simp
qed

theorem update_current_by_mode_witness:
  "update_current False 100 example_db = example_db
   \<and> current_object (update_current True 200
        (example_db\<lparr>current_object := [\<lparr>co_zoid = 7, co_tid = 50\<rparr>],
           object_state :=
             [\<lparr>os_zoid = 7, os_tid = 200, os_prev_tid = Some 50, os_md5 = None,
               os_state_size = 1, os_state = Some ''A''\<rparr>,
              \<lparr>os_zoid = 8, os_tid = 200, os_prev_tid = Some 0, os_md5 = None,
               os_state_size = 0, os_state = None\<rparr>]\<rparr>))
     = [\<lparr>co_zoid = 7, co_tid = 200\<rparr>, \<lparr>co_zoid = 8, co_tid = 200\<rparr>]"
proof -
  let ?s7 = "\<lparr>os_zoid = 7, os_tid = 200, os_prev_tid = Some 50, os_md5 = None,
               os_state_size = 1, os_state = Some ''A''\<rparr>"
  let ?s8 = "\<lparr>os_zoid = 8, os_tid = 200, os_prev_tid = Some 0, os_md5 = None,
               os_state_size = 0, os_state = None\<rparr>"
  let ?d = "example_db\<lparr>current_object := [\<lparr>co_zoid = 7, co_tid = 50\<rparr>],
           object_state := [?s7, ?s8]\<rparr>"
  let ?after = "current_object (update_current True 200 ?d)"
  note inst = update_current_by_mode[of 200 ?d]
  from update_current_by_mode[of 100 example_db]
  have 1: "update_current False 100 example_db = example_db" by blast
  from inst have "map co_zoid ?after = map co_zoid (current_object ?d)
       @ [os_zoid s. s \<leftarrow> object_state ?d, os_tid s = 200 \<and> os_prev_tid s = Some 0]"
    by blast
  then have zoids: "map co_zoid ?after = [7, 8]"
    by simp
  then obtain c1 c2 where after: "?after = [c1, c2]" and z1: "co_zoid c1 = 7" and z2: "co_zoid c2 = 8"
    by (auto simp: map_eq_Cons_conv)
  have s7: "?s7 \<in> set (object_state ?d)" and s8: "?s8 \<in> set (object_state ?d)"
    by simp_all
  from inst have upd: "\<forall>s \<in> set (object_state ?d).
        os_tid s = 200 \<and> (\<exists>p. os_prev_tid s = Some p \<and> p \<noteq> 0) \<longrightarrow>
        (\<forall>c \<in> set ?after. co_zoid c = os_zoid s \<longrightarrow> co_tid c = 200)"
    by blast
  have p7: "os_tid ?s7 = 200 \<and> (\<exists>p. os_prev_tid ?s7 = Some p \<and> p \<noteq> 0)"
    by simp
  from bspec[OF upd s7] p7
  have "\<forall>c \<in> set ?after. co_zoid c = os_zoid ?s7 \<longrightarrow> co_tid c = 200"
    by (rule mp)
  with after z1 have t1: "co_tid c1 = 200" by simp
  from inst have new: "\<forall>s \<in> set (object_state ?d). os_tid s = 200 \<and> os_prev_tid s = Some 0 \<longrightarrow>
        \<lparr>co_zoid = os_zoid s, co_tid = 200\<rparr> \<in> set ?after"
    by blast
  have p8: "os_tid ?s8 = 200 \<and> os_prev_tid ?s8 = Some 0"
    by simp
  from bspec[OF new s8] p8
  have "\<lparr>co_zoid = os_zoid ?s8, co_tid = 200\<rparr> \<in> set ?after"
    by (rule mp)
  then have "\<lparr>co_zoid = 8, co_tid = 200\<rparr> \<in> set ?after" by simp
  with after z1 have c2: "c2 = \<lparr>co_zoid = 8, co_tid = 200\<rparr>" by auto
  from z1 t1 have c1: "c1 = \<lparr>co_zoid = 7, co_tid = 200\<rparr>" by (cases c1) simp
  from after c1 c2 have "?after = [\<lparr>co_zoid = 7, co_tid = 200\<rparr>, \<lparr>co_zoid = 8, co_tid = 200\<rparr>]"
    by simp
  with 1 show ?thesis by simp
qed

text \<open>
  The claim as written fails for an object committed with a \<^verbatim>\<open>prev_tid\<close> other than 0
  that has no current-pointer row. Object 10 is staged alone with prior tid 40 and has
  no current pointer; conflict detection reports nothing, \<^verbatim>\<open>move_from_temp\<close> stores
  its revision at tid 300 with \<^verbatim>\<open>prev_tid\<close> 40, and after \<^verbatim>\<open>update_current\<close> the
  table \<^verbatim>\<open>current_object\<close> still holds the pointers of objects 7 and 8 only:
  \<^verbatim>\<open>load_current\<close> finds nothing for object 10.
\<close>

theorem update_current_no_pointer_counterexample:
  "detect_conflict True (example_db\<lparr>temp_store :=
       [\<lparr>ts_zoid = 10, ts_prev_tid = 40, ts_md5 = None, ts_state = None\<rparr>]\<rparr>) = []
   \<and> [os_prev_tid s. s \<leftarrow> object_state (fst (move_from_temp True 300 False
         (example_db\<lparr>temp_store :=
            [\<lparr>ts_zoid = 10, ts_prev_tid = 40, ts_md5 = None, ts_state = None\<rparr>]\<rparr>))),
         os_zoid s = 10 \<and> os_tid s = 300] = [Some 40]
   \<and> current_object (update_current True 300 (fst (move_from_temp True 300 False
         (example_db\<lparr>temp_store :=
            [\<lparr>ts_zoid = 10, ts_prev_tid = 40, ts_md5 = None, ts_state = None\<rparr>]\<rparr>))))
       = [\<lparr>co_zoid = 7, co_tid = 100\<rparr>, \<lparr>co_zoid = 8, co_tid = 200\<rparr>]
   \<and> load_current True (update_current True 300 (fst (move_from_temp True 300 False
         (example_db\<lparr>temp_store :=
            [\<lparr>ts_zoid = 10, ts_prev_tid = 40, ts_md5 = None, ts_state = None\<rparr>]\<rparr>)))) 10
       = (None, None)"
proof -
  let ?d = "example_db\<lparr>temp_store :=
       [\<lparr>ts_zoid = 10, ts_prev_tid = 40, ts_md5 = None, ts_state = None\<rparr>]\<rparr>"
  let ?d1 = "fst (move_from_temp True 300 False ?d)"
  have 1: "detect_conflict True ?d = []"
    by (simp add: detect_conflict_hp_unfold example_db_def)
  have os: "object_state ?d1 =
      [\<lparr>os_zoid = 7, os_tid = 100, os_prev_tid = Some 50, os_md5 = None,
        os_state_size = 1, os_state = Some ''A''\<rparr>,
       \<lparr>os_zoid = 8, os_tid = 200, os_prev_tid = Some 0, os_md5 = None,
        os_state_size = 0, os_state = None\<rparr>,
       \<lparr>os_zoid = 10, os_tid = 300, os_prev_tid = Some 40, os_md5 = None,
        os_state_size = 0, os_state = None\<rparr>]"
    by (simp add: move_from_temp_hp_object_state example_db_def state_size_def)
  have co: "current_object ?d1 = [\<lparr>co_zoid = 7, co_tid = 100\<rparr>, \<lparr>co_zoid = 8, co_tid = 200\<rparr>]"
    by (simp add: move_from_temp_def Let_def move_from_temp_hp_insert_query_def example_db_def)
  have 2: "[os_prev_tid s. s \<leftarrow> object_state ?d1, os_zoid s = 10 \<and> os_tid s = 300] = [Some 40]"
    unfolding os by simp
  have 3: "current_object (update_current True 300 ?d1)
      = [\<lparr>co_zoid = 7, co_tid = 100\<rparr>, \<lparr>co_zoid = 8, co_tid = 200\<rparr>]"
    by (simp add: update_current_def noop_when_history_free_def update_current_update_query_def
        update_current_insert_query_def os co)
  have os': "object_state (update_current True 300 ?d1) = object_state ?d1"
    by (rule update_current_hp_frame)
  have 4: "load_current True (update_current True 300 ?d1) 10 = (None, None)"
    by (simp add: load_current_def load_current_hp_rows fetchone_def 3 os' os)
  from 1 2 3 4 show ?thesis by (simp only: simp_thms)
qed
section \<open>Batched lookup: properties\<close>

lemma store_rows_lookup:
  "store_rows rows res k = (case map_of (rev rows) k of Some v \<Rightarrow> Some v | None \<Rightarrow> res k)"
proof (induction rows arbitrary: res)
  case Nil
  show ?case by (simp add: store_rows_def)
next
  case (Cons r rows)
  have step: "store_rows (r # rows) res = store_rows rows (res(fst r \<mapsto> snd r))"
    by (cases r) (simp add: store_rows_def)
  show ?case
    unfolding step Cons.IH
    by (cases r) (simp add: map_add_def split: option.splits)
qed

lemma map_of_rev_filter_key:
  "map_of (rev [p \<leftarrow> ps. fst p \<in> S]) k = (if k \<in> S then map_of (rev ps) k else None)"
proof (induction ps)
  case Nil
  show ?case by simp
next
  case (Cons p ps)
  show ?case
  proof (cases "fst p \<in> S")
    case True
    with Cons.IH show ?thesis
      by (cases p) (auto simp: map_add_def split: option.splits)
  next
    case False
    with Cons.IH show ?thesis
      by (cases p) (auto simp: map_add_def split: option.splits)
  qed
qed

lemma store_chunk_lookup:
  "store_rows (fetchmany [p \<leftarrow> ps. fst p \<in> set chunk]) res k =
     (if k \<in> set chunk \<and> map_of (rev ps) k \<noteq> None then map_of (rev ps) k else res k)"
  unfolding fetchmany_def store_rows_lookup map_of_rev_filter_key
  by (simp split: option.splits)

lemma current_object_tids_loop_lookup:
  assumes q: "\<And>chunk. stmt d chunk = [p \<leftarrow> ps. fst p \<in> set chunk]"
  shows "current_object_tids_loop stmt d oids res k =
     (if k \<in> set oids \<and> map_of (rev ps) k \<noteq> None then map_of (rev ps) k else res k)"
  using q
proof (induction stmt d oids res rule: current_object_tids_loop.induct)
  case (1 stmt' d' oids res)
  note stmt_eq = "1.prems"
  show ?case
  proof (cases "oids = []")
    case True
    then show ?thesis
      by (subst current_object_tids_loop.simps) simp
  next
    case False
    have split: "set oids = set (take 1000 oids) \<union> set (drop 1000 oids)"
      by (metis append_take_drop_id set_append)
    let ?res' = "store_rows (fetchmany (stmt' d' (take 1000 oids))) res"
    have res': "?res' k =
        (if k \<in> set (take 1000 oids) \<and> map_of (rev ps) k \<noteq> None then map_of (rev ps) k
         else res k)"
      unfolding stmt_eq by (rule store_chunk_lookup)
    have "current_object_tids_loop stmt' d' oids res k =
        current_object_tids_loop stmt' d' (drop 1000 oids) ?res' k"
      using False by (subst current_object_tids_loop.simps) simp
    also have "\<dots> =
        (if k \<in> set (drop 1000 oids) \<and> map_of (rev ps) k \<noteq> None then map_of (rev ps) k
         else ?res' k)"
      using False stmt_eq by (rule "1.IH")
    also have "\<dots> =
        (if k \<in> set oids \<and> map_of (rev ps) k \<noteq> None then map_of (rev ps) k else res k)"
      unfolding res' split by simp
    finally show ?thesis .
  qed
qed

lemma fold_chunks_lookup:
  assumes q: "\<And>chunk. stmt chunk = [p \<leftarrow> ps. fst p \<in> set chunk]"
  shows "fold (\<lambda>chunk res. store_rows (fetchmany (stmt chunk)) res) chunks res k =
     (if k \<in> set (concat chunks) \<and> map_of (rev ps) k \<noteq> None then map_of (rev ps) k else res k)"
proof (induction chunks arbitrary: res)
  case Nil
  show ?case by simp
next
  case (Cons chunk chunks)
  let ?res' = "store_rows (fetchmany (stmt chunk)) res"
  have res': "?res' k =
      (if k \<in> set chunk \<and> map_of (rev ps) k \<noteq> None then map_of (rev ps) k else res k)"
    unfolding q by (rule store_chunk_lookup)
  have "fold (\<lambda>chunk res. store_rows (fetchmany (stmt chunk)) res) (chunk # chunks) res k
      = fold (\<lambda>chunk res. store_rows (fetchmany (stmt chunk)) res) chunks ?res' k"
    by simp
  also have "\<dots> =
      (if k \<in> set (concat chunks) \<and> map_of (rev ps) k \<noteq> None then map_of (rev ps) k
       else ?res' k)"
    by (rule Cons.IH)
  also have "\<dots> =
      (if k \<in> set (concat (chunk # chunks)) \<and> map_of (rev ps) k \<noteq> None
       then map_of (rev ps) k else res k)"
    unfolding res' by simp
  finally show ?case .
qed

lemma current_object_tids_hp_stmt:
  "query_property True current_object_tids_queries d chunk =
     [p \<leftarrow> map (\<lambda>c. (co_zoid c, co_tid c)) (current_object d). fst p \<in> set chunk]"
  by (simp add: query_property_def current_object_tids_queries_def concat_map_if_single
      filter_map comp_def)

lemma current_object_tids_hf_stmt:
  "query_property False current_object_tids_queries d chunk =
     [p \<leftarrow> map (\<lambda>s. (os_zoid s, os_tid s)) (object_state d). fst p \<in> set chunk]"
  by (simp add: query_property_def current_object_tids_queries_def concat_map_if_single
      filter_map comp_def)

lemma current_object_tids_stmt:
  "query_property keep_history current_object_tids_queries d chunk =
     [p \<leftarrow> (if keep_history then map (\<lambda>c. (co_zoid c, co_tid c)) (current_object d)
                else map (\<lambda>s. (os_zoid s, os_tid s)) (object_state d)).
        fst p \<in> set chunk]"
  by (cases keep_history) (simp_all only: current_object_tids_hp_stmt current_object_tids_hf_stmt if_True if_False)

lemma current_object_tids_lookup:
  "current_object_tids keep_history d oids k =
     (let ps = (if keep_history then map (\<lambda>c. (co_zoid c, co_tid c)) (current_object d)
                else map (\<lambda>s. (os_zoid s, os_tid s)) (object_state d))
      in if k \<in> set oids \<and> map_of (rev ps) k \<noteq> None then map_of (rev ps) k else None)"
  unfolding current_object_tids_def Let_def
  by (subst current_object_tids_loop_lookup[OF current_object_tids_stmt]) simp

lemma current_object_tids_chunks_lookup:
  "current_object_tids_chunks keep_history d chunks k =
     (let ps = (if keep_history then map (\<lambda>c. (co_zoid c, co_tid c)) (current_object d)
                else map (\<lambda>s. (os_zoid s, os_tid s)) (object_state d))
      in if k \<in> set (concat chunks) \<and> map_of (rev ps) k \<noteq> None then map_of (rev ps) k else None)"
  unfolding current_object_tids_chunks_def Let_def
  by (subst fold_chunks_lookup[OF current_object_tids_stmt]) simp

lemma map_of_rev_dom: "map_of (rev ps) k \<noteq> None \<longleftrightarrow> k \<in> fst ` set ps"
  by (simp add: map_of_eq_None_iff)

lemma map_of_rev_distinct:
  assumes "distinct (map fst ps)" and "(k, v) \<in> set ps"
  shows "map_of (rev ps) k = Some v"
proof -
  have "distinct (map fst (rev ps))"
    using assms(1) by (simp add: rev_map[symmetric])
  moreover have "(k, v) \<in> set (rev ps)"
    using assms(2) by simp
  ultimately show ?thesis
    by (rule map_of_is_SomeI)
qed

lemma current_object_tids_dom:
  "dom (current_object_tids keep_history d oids) =
     set oids \<inter> fst ` set (if keep_history then map (\<lambda>c. (co_zoid c, co_tid c)) (current_object d)
                              else map (\<lambda>s. (os_zoid s, os_tid s)) (object_state d))"
proof -
  let ?ps = "if keep_history then map (\<lambda>c. (co_zoid c, co_tid c)) (current_object d)
             else map (\<lambda>s. (os_zoid s, os_tid s)) (object_state d)"
  have "k \<in> dom (current_object_tids keep_history d oids) \<longleftrightarrow> k \<in> set oids \<inter> fst ` set ?ps" for k
  proof -
    have "k \<in> dom (current_object_tids keep_history d oids)
        \<longleftrightarrow> current_object_tids keep_history d oids k \<noteq> None"
      by (simp add: dom_def)
    also have "\<dots> \<longleftrightarrow> k \<in> set oids \<and> map_of (rev ?ps) k \<noteq> None"
      unfolding current_object_tids_lookup Let_def by simp
    also have "\<dots> \<longleftrightarrow> k \<in> set oids \<inter> fst ` set ?ps"
      unfolding map_of_rev_dom by simp
    finally show ?thesis .
  qed
  then show ?thesis by blast
qed

text \<open>
  C9. The mapping returned by \<^verbatim>\<open>current_object_tids\<close> has as its keys exactly the
  input ids that have a row in \<^verbatim>\<open>current_object\<close> (history-preserving) or in
  \<^verbatim>\<open>object_state\<close> (history-free); with \<^verbatim>\<open>zoid\<close> the key of that table, each such id
  is mapped to the tid of its row. However the input is split into chunks, one
  statement per chunk, the mapping is the one that the loop with chunks of 1000 returns.
\<close>

theorem current_object_tids_complete:
  "dom (current_object_tids True d oids) = set oids \<inter> co_zoid ` set (current_object d)
   \<and> dom (current_object_tids False d oids) = set oids \<inter> os_zoid ` set (object_state d)
   \<and> (distinct (map co_zoid (current_object d)) \<longrightarrow>
        (\<forall>c \<in> set (current_object d). co_zoid c \<in> set oids \<longrightarrow>
           current_object_tids True d oids (co_zoid c) = Some (co_tid c)))
   \<and> (distinct (map os_zoid (object_state d)) \<longrightarrow>
        (\<forall>s \<in> set (object_state d). os_zoid s \<in> set oids \<longrightarrow>
           current_object_tids False d oids (os_zoid s) = Some (os_tid s)))
   \<and> (concat chunks = oids \<longrightarrow>
        current_object_tids_chunks keep_history d chunks = current_object_tids keep_history d oids)"
proof (intro conjI impI ballI)
  show "dom (current_object_tids True d oids) = set oids \<inter> co_zoid ` set (current_object d)"
    unfolding current_object_tids_dom by (simp add: image_image)
  show "dom (current_object_tids False d oids) = set oids \<inter> os_zoid ` set (object_state d)"
    unfolding current_object_tids_dom by (simp add: image_image)
next
  fix c
  assume dist: "distinct (map co_zoid (current_object d))"
    and c: "c \<in> set (current_object d)" and inp: "co_zoid c \<in> set oids"
  let ?ps = "map (\<lambda>c. (co_zoid c, co_tid c)) (current_object d)"
  have "distinct (map fst ?ps)"
    using dist by (simp add: comp_def)
  moreover have "(co_zoid c, co_tid c) \<in> set ?ps"
    using c by (simp add: image_iff) blast
  ultimately have "map_of (rev ?ps) (co_zoid c) = Some (co_tid c)"
    by (rule map_of_rev_distinct)
  with inp show "current_object_tids True d oids (co_zoid c) = Some (co_tid c)"
    unfolding current_object_tids_lookup Let_def by simp
next
  fix s
  assume dist: "distinct (map os_zoid (object_state d))"
    and s: "s \<in> set (object_state d)" and inp: "os_zoid s \<in> set oids"
  let ?ps = "map (\<lambda>s. (os_zoid s, os_tid s)) (object_state d)"
  have "distinct (map fst ?ps)"
    using dist by (simp add: comp_def)
  moreover have "(os_zoid s, os_tid s) \<in> set ?ps"
    using s by (simp add: image_iff) blast
  ultimately have "map_of (rev ?ps) (os_zoid s) = Some (os_tid s)"
    by (rule map_of_rev_distinct)
  with inp show "current_object_tids False d oids (os_zoid s) = Some (os_tid s)"
    unfolding current_object_tids_lookup Let_def by simp
next
  assume split: "concat chunks = oids"
  show "current_object_tids_chunks keep_history d chunks = current_object_tids keep_history d oids"
  proof (rule ext)
    fix k
    show "current_object_tids_chunks keep_history d chunks k
        = current_object_tids keep_history d oids k"
      unfolding current_object_tids_chunks_lookup current_object_tids_lookup split ..
  qed
qed

theorem current_object_tids_complete_witness:
  "dom (current_object_tids True example_db [7, 9, 8]) = {7, 8}
   \<and> current_object_tids True example_db [7, 9, 8] 7 = Some 100
   \<and> current_object_tids True example_db [7, 9, 8] 8 = Some 200
   \<and> current_object_tids_chunks True example_db [[7], [9, 8]]
     = current_object_tids True example_db [7, 9, 8]"
proof -
  let ?c7 = "\<lparr>co_zoid = 7, co_tid = 100\<rparr>" and ?c8 = "\<lparr>co_zoid = 8, co_tid = 200\<rparr>"
  note inst = current_object_tids_complete[of example_db "[7, 9, 8]" "[[7], [9, 8]]" True]
  have cur: "current_object example_db = [?c7, ?c8]"
    by (simp add: example_db_def)
  have dist: "distinct (map co_zoid (current_object example_db))"
    unfolding cur by simp
  from inst have "dom (current_object_tids True example_db [7, 9, 8])
      = set [7, 9, 8] \<inter> co_zoid ` set (current_object example_db)"
    by blast
  then have 1: "dom (current_object_tids True example_db [7, 9, 8]) = {7, 8}"
    unfolding cur by auto
  from inst dist have vals: "\<forall>c \<in> set (current_object example_db). co_zoid c \<in> set [7, 9, 8] \<longrightarrow>
           current_object_tids True example_db [7, 9, 8] (co_zoid c) = Some (co_tid c)"
    by blast
  have "co_zoid ?c7 \<in> set [7, 9, 8] \<longrightarrow>
      current_object_tids True example_db [7, 9, 8] (co_zoid ?c7) = Some (co_tid ?c7)"
    by (rule bspec[OF vals]) (simp add: cur)
  then have 2: "current_object_tids True example_db [7, 9, 8] 7 = Some 100"
    by simp
  have "co_zoid ?c8 \<in> set [7, 9, 8] \<longrightarrow>
      current_object_tids True example_db [7, 9, 8] (co_zoid ?c8) = Some (co_tid ?c8)"
    by (rule bspec[OF vals]) (simp add: cur)
  then have 3: "current_object_tids True example_db [7, 9, 8] 8 = Some 200"
    by simp
  have "concat [[7], [9, 8]] = [7, 9, 8::int]" by simp
  with inst have 4: "current_object_tids_chunks True example_db [[7], [9, 8]]
     = current_object_tids True example_db [7, 9, 8]"
    by blast
  from 1 2 3 4 show ?thesis by simp
qed

section \<open>Staging: properties\<close>

lemma alist_update_member: "(k, v) \<in> set (AList.update k v al)"
  by (induction al) auto

lemma alist_update_entries:
  "e \<in> set (AList.update k v al) \<Longrightarrow> e = (k, v) \<or> e \<in> set al"
  by (induction al) (auto split: if_splits)

lemma fold_plain_inserts:
  assumes "\<forall>e \<in> set ins. fst (fst e) = (''INSERT'', [])"
  shows "fold (\<lambda>(key, row). run_insert (fst (fst key)) (snd (fst key)) row) ins rows
           = rows @ map snd ins"
  using assms
proof (induction ins arbitrary: rows)
  case Nil
  show ?case by simp
next
  case (Cons e ins)
  obtain key row where e: "e = (key, row)" by (cases e)
  from Cons.prems e have "fst key = (''INSERT'', [])" by simp
  then have "run_insert (fst (fst key)) (snd (fst key)) row rows = rows @ [row]"
    by (simp add: run_insert_def)
  moreover from Cons.prems have "\<forall>e \<in> set ins. fst (fst e) = (''INSERT'', [])" by simp
  ultimately show ?case
    using Cons.IH e by simp
qed

lemma upsert_zoids:
  "map ts_zoid (map (\<lambda>r. if ts_zoid r = ts_zoid row then row else r) rows) = map ts_zoid rows"
  by (induction rows) simp_all

lemma upsert_filter_commute:
  "[r \<leftarrow> map (\<lambda>r. if ts_zoid r = ts_zoid row then row else r) rows. ts_zoid r = oid]
     = map (\<lambda>r. if ts_zoid r = ts_zoid row then row else r) [r \<leftarrow> rows. ts_zoid r = oid]"
  by (induction rows) simp_all

lemma upsert_other:
  "ts_zoid row \<noteq> oid \<Longrightarrow>
   map (\<lambda>r. if ts_zoid r = ts_zoid row then row else r) [r \<leftarrow> rows. ts_zoid r = oid]
     = [r \<leftarrow> rows. ts_zoid r = oid]"
  by (induction rows) simp_all

lemma run_insert_upsert_distinct:
  assumes "\<not> (command = ''INSERT'' \<and> suffix = [])" and "distinct (map ts_zoid rows)"
  shows "distinct (map ts_zoid (run_insert command suffix row rows))"
proof (cases "ts_zoid row \<in> ts_zoid ` set rows")
  case True
  with assms(1) have "run_insert command suffix row rows
      = map (\<lambda>r. if ts_zoid r = ts_zoid row then row else r) rows"
    by (simp add: run_insert_def)
  with assms(2) show ?thesis
    by (simp only: upsert_zoids)
next
  case False
  with assms(1) have "run_insert command suffix row rows = rows @ [row]"
    by (simp add: run_insert_def)
  with assms(2) False show ?thesis
    by simp
qed

lemma run_insert_upsert_filter:
  assumes "\<not> (command = ''INSERT'' \<and> suffix = [])" and "distinct (map ts_zoid rows)"
  shows "[r \<leftarrow> run_insert command suffix row rows. ts_zoid r = oid]
           = (if ts_zoid row = oid then [row] else [r \<leftarrow> rows. ts_zoid r = oid])"
proof (cases "ts_zoid row \<in> ts_zoid ` set rows")
  case True
  with assms(1) have ri: "run_insert command suffix row rows
      = map (\<lambda>r. if ts_zoid r = ts_zoid row then row else r) rows"
    by (simp add: run_insert_def)
  show ?thesis
  proof (cases "ts_zoid row = oid")
    case same: True
    from True obtain r0 where r0: "r0 \<in> set rows" "ts_zoid r0 = ts_zoid row"
      by (auto simp: image_iff)
    from filter_key_distinct[OF assms(2) r0(1)] r0(2) same
    have "[r \<leftarrow> rows. ts_zoid r = oid] = [r0]" by simp
    with r0(2) same show ?thesis
      unfolding ri upsert_filter_commute by simp
  next
    case False
    then show ?thesis
      unfolding ri upsert_filter_commute by (simp add: upsert_other)
  qed
next
  case False
  with assms(1) have ri: "run_insert command suffix row rows = rows @ [row]"
    by (simp add: run_insert_def)
  show ?thesis
  proof (cases "ts_zoid row = oid")
    case True
    with False have "[r \<leftarrow> rows. ts_zoid r = oid] = []"
      by (intro filter_key_absent) simp
    with True show ?thesis
      unfolding ri by simp
  next
    case False
    then show ?thesis
      unfolding ri by simp
  qed
qed

lemma fold_upserts:
  assumes ng: "\<not> (command = ''INSERT'' \<and> suffix = [])"
    and grp: "\<forall>e \<in> set ins. fst (fst e) = (command, suffix) \<and> ts_zoid (snd e) = snd (fst e)"
    and keys: "distinct (map fst ins)"
    and tbl: "distinct (map ts_zoid rows)"
  shows "distinct (map ts_zoid
           (fold (\<lambda>(key, row). run_insert (fst (fst key)) (snd (fst key)) row) ins rows))
       \<and> [r \<leftarrow> fold (\<lambda>(key, row). run_insert (fst (fst key)) (snd (fst key)) row) ins rows.
            ts_zoid r = oid]
         = (case map_of ins ((command, suffix), oid) of
              Some row \<Rightarrow> [row] | None \<Rightarrow> [r \<leftarrow> rows. ts_zoid r = oid])"
  using grp keys tbl
proof (induction ins arbitrary: rows)
  case Nil
  then show ?case by simp
next
  case (Cons e ins)
  let ?f = "\<lambda>(key, row). run_insert (fst (fst key)) (snd (fst key)) row"
  obtain key row where e: "e = (key, row)" by (cases e)
  from Cons.prems(1) e have key: "key = ((command, suffix), ts_zoid row)"
    by (cases key) simp
  let ?rows1 = "run_insert command suffix row rows"
  have step: "fold ?f (e # ins) rows = fold ?f ins ?rows1"
    by (simp add: e key)
  have d1: "distinct (map ts_zoid ?rows1)"
    using ng Cons.prems(3) by (rule run_insert_upsert_distinct)
  have f1: "[r \<leftarrow> ?rows1. ts_zoid r = oid]
      = (if ts_zoid row = oid then [row] else [r \<leftarrow> rows. ts_zoid r = oid])"
    using ng Cons.prems(3) by (rule run_insert_upsert_filter)
  have grp': "\<forall>e \<in> set ins. fst (fst e) = (command, suffix) \<and> ts_zoid (snd e) = snd (fst e)"
    using Cons.prems(1) by simp
  have keys': "distinct (map fst ins)"
    using Cons.prems(2) by simp
  note IH = Cons.IH[OF grp' keys' d1]
  show ?case
  proof (cases "ts_zoid row = oid")
    case True
    from Cons.prems(2) e have "key \<notin> fst ` set ins" by simp
    then have "map_of ins key = None"
      by (simp add: map_of_eq_None_iff)
    with True key have none: "map_of ins ((command, suffix), oid) = None" by simp
    have some: "map_of (e # ins) ((command, suffix), oid) = Some row"
      using True key e by simp
    from IH none f1 True show ?thesis
      unfolding step some by simp
  next
    case False
    with key have "key \<noteq> ((command, suffix), oid)" by simp
    then have same: "map_of (e # ins) ((command, suffix), oid) = map_of ins ((command, suffix), oid)"
      using e by simp
    from f1 False have "[r \<leftarrow> ?rows1. ts_zoid r = oid] = [r \<leftarrow> rows. ts_zoid r = oid]"
      by simp
    with IH show ?thesis
      unfolding step same by (simp only:)
  qed
qed

lemma flush_temp_store:
  "temp_store (fst (flush (d, b))) =
     fold (\<lambda>(key, row). run_insert (fst (fst key)) (snd (fst key)) row) (inserts b)
       [r \<leftarrow> temp_store d. ts_zoid r \<notin> set (deletes b)]"
  by (simp add: flush_def)

lemma flush_batcher: "snd (flush (d, b)) = new_batcher"
  by (simp add: flush_def)

lemma flush_select:
  assumes grp: "\<forall>e \<in> set (inserts b).
                  fst (fst e) = (command, suffix) \<and> ts_zoid (snd e) = snd (fst e)"
    and keys: "distinct (map fst (inserts b))"
    and tbl: "(command = ''INSERT'' \<and> suffix = []) \<or> distinct (map ts_zoid (temp_store d))"
    and mem: "(((command, suffix), oid), row) \<in> set (inserts b)"
    and del: "command = ''INSERT'' \<and> suffix = [] \<longrightarrow> oid \<in> set (deletes b)"
  shows "[r \<leftarrow> temp_store (fst (flush (d, b))). ts_zoid r = oid] = [row]"
proof (cases "command = ''INSERT'' \<and> suffix = []")
  case True
  let ?T0 = "[r \<leftarrow> temp_store d. ts_zoid r \<notin> set (deletes b)]"
  from grp True have plain: "\<forall>e \<in> set (inserts b). fst (fst e) = (''INSERT'', [])"
    by simp
  have ts: "temp_store (fst (flush (d, b))) = ?T0 @ map snd (inserts b)"
    unfolding flush_temp_store using plain by (rule fold_plain_inserts)
  from del True have "oid \<in> set (deletes b)" by simp
  then have old: "[r \<leftarrow> ?T0. ts_zoid r = oid] = []"
    by (auto simp: filter_empty_conv)
  have "[e \<leftarrow> inserts b. ts_zoid (snd e) = oid]
      = [e \<leftarrow> inserts b. fst e = fst (((command, suffix), oid), row)]"
  proof (rule filter_cong[OF refl])
    fix e assume "e \<in> set (inserts b)"
    with grp have "fst (fst e) = (command, suffix)" "ts_zoid (snd e) = snd (fst e)"
      by simp_all
    then show "(ts_zoid (snd e) = oid) = (fst e = fst (((command, suffix), oid), row))"
      by (cases e, cases "fst e") auto
  qed
  also have "\<dots> = [(((command, suffix), oid), row)]"
    using keys mem by (rule filter_key_distinct)
  finally have "[e \<leftarrow> inserts b. ts_zoid (snd e) = oid] = [(((command, suffix), oid), row)]" .
  then have new: "[r \<leftarrow> map snd (inserts b). ts_zoid r = oid] = [row]"
    by (simp add: filter_map comp_def)
  show ?thesis
    unfolding ts using old new by (simp del: filter_filter)
next
  case False
  with tbl have "distinct (map ts_zoid (temp_store d))" by simp
  then have d0: "distinct (map ts_zoid [r \<leftarrow> temp_store d. ts_zoid r \<notin> set (deletes b)])"
    by (rule distinct_map_filter)
  have "map_of (inserts b) ((command, suffix), oid) = Some row"
    using keys mem by (rule map_of_is_SomeI)
  with fold_upserts[OF False grp keys d0, of oid] show ?thesis
    unfolding flush_temp_store by simp
qed

lemma flush_upsert_distinct:
  assumes ng: "\<not> (command = ''INSERT'' \<and> suffix = [])"
    and grp: "\<forall>e \<in> set (inserts b).
                  fst (fst e) = (command, suffix) \<and> ts_zoid (snd e) = snd (fst e)"
    and keys: "distinct (map fst (inserts b))"
    and tbl: "distinct (map ts_zoid (temp_store d))"
  shows "distinct (map ts_zoid (temp_store (fst (flush (d, b)))))"
proof -
  from tbl have d0: "distinct (map ts_zoid [r \<leftarrow> temp_store d. ts_zoid r \<notin> set (deletes b)])"
    by (rule distinct_map_filter)
  from fold_upserts[OF ng grp keys d0, of 0] show ?thesis
    unfolding flush_temp_store by simp
qed

lemma generic_store_temp_inserts:
  "inserts (generic_store_temp md5hex keep_history b oid prev_tid data command suffix) =
     AList.update ((command, suffix), oid)
       \<lparr>ts_zoid = oid, ts_prev_tid = prev_tid,
        ts_md5 = compute_md5sum md5hex keep_history (Some data), ts_state = Binary data\<rparr>
       (inserts b)"
  by (simp add: generic_store_temp_def Let_def insert_into_temp_store_def
      delete_from_temp_store_def)

lemma generic_store_temp_deletes:
  "deletes (generic_store_temp md5hex keep_history b oid prev_tid data command suffix) =
     (if command = ''INSERT'' \<and> suffix = [] then List.insert oid (deletes b) else deletes b)"
  by (simp add: generic_store_temp_def Let_def insert_into_temp_store_def
      delete_from_temp_store_def)

lemma generic_store_temp_keeps:
  assumes grp: "\<forall>e \<in> set (inserts b).
                  fst (fst e) = (command, suffix) \<and> ts_zoid (snd e) = snd (fst e)"
    and keys: "distinct (map fst (inserts b))"
  shows "\<forall>e \<in> set (inserts (generic_store_temp md5hex keep_history b oid prev_tid data command suffix)).
           fst (fst e) = (command, suffix) \<and> ts_zoid (snd e) = snd (fst e)"
    and "distinct (map fst
           (inserts (generic_store_temp md5hex keep_history b oid prev_tid data command suffix)))"
    and "(((command, suffix), oid),
          \<lparr>ts_zoid = oid, ts_prev_tid = prev_tid,
           ts_md5 = compute_md5sum md5hex keep_history (Some data), ts_state = Binary data\<rparr>)
         \<in> set (inserts (generic_store_temp md5hex keep_history b oid prev_tid data command suffix))"
    and "command = ''INSERT'' \<and> suffix = [] \<longrightarrow>
         oid \<in> set (deletes (generic_store_temp md5hex keep_history b oid prev_tid data command suffix))"
proof -
  let ?row = "\<lparr>ts_zoid = oid, ts_prev_tid = prev_tid,
           ts_md5 = compute_md5sum md5hex keep_history (Some data), ts_state = Binary data\<rparr>"
  let ?b' = "generic_store_temp md5hex keep_history b oid prev_tid data command suffix"
  show "\<forall>e \<in> set (inserts ?b'). fst (fst e) = (command, suffix) \<and> ts_zoid (snd e) = snd (fst e)"
  proof
    fix e assume "e \<in> set (inserts ?b')"
    then have "e = (((command, suffix), oid), ?row) \<or> e \<in> set (inserts b)"
      unfolding generic_store_temp_inserts by (rule alist_update_entries)
    then show "fst (fst e) = (command, suffix) \<and> ts_zoid (snd e) = snd (fst e)"
    proof
      assume "e = (((command, suffix), oid), ?row)"
      then show ?thesis by simp
    next
      assume "e \<in> set (inserts b)"
      with grp show ?thesis by simp
    qed
  qed
  show "distinct (map fst (inserts ?b'))"
    unfolding generic_store_temp_inserts using keys by (simp add: distinct_update)
  show "(((command, suffix), oid), ?row) \<in> set (inserts ?b')"
    unfolding generic_store_temp_inserts by (rule alist_update_member)
  show "command = ''INSERT'' \<and> suffix = [] \<longrightarrow> oid \<in> set (deletes ?b')"
    unfolding generic_store_temp_deletes by simp
qed

text \<open>
  C7. Two \<^verbatim>\<open>_generic_store_temp\<close> calls for the same object, made with one statement
  form (command and suffix) through a batcher whose buffered inserts all have that form
  and carry their row's \<^verbatim>\<open>zoid\<close> as row key, leave after the batcher's flush exactly
  one \<^verbatim>\<open>temp_store\<close> row for the object: the row of the second call. This holds when
  both calls fall into one batch and when the batcher flushes between them. For the
  upsert forms \<^verbatim>\<open>zoid\<close> is the key of \<^verbatim>\<open>temp_store\<close>; the plain
  \<^verbatim>\<open>INSERT\<close> needs no key, since \<^verbatim>\<open>_generic_store_temp\<close> deletes first.
\<close>

theorem generic_store_temp_twice:
  assumes grp: "\<forall>e \<in> set (inserts b).
                  fst (fst e) = (command, suffix) \<and> ts_zoid (snd e) = snd (fst e)"
    and keys: "distinct (map fst (inserts b))"
    and tbl: "(command = ''INSERT'' \<and> suffix = []) \<or> distinct (map ts_zoid (temp_store d))"
  shows "[r \<leftarrow> temp_store (fst (flush (d,
            generic_store_temp md5hex keep_history
              (generic_store_temp md5hex keep_history b oid prev_tid_a data_a command suffix)
              oid prev_tid_b data_b command suffix))).
          ts_zoid r = oid]
         = [\<lparr>ts_zoid = oid, ts_prev_tid = prev_tid_b,
             ts_md5 = compute_md5sum md5hex keep_history (Some data_b), ts_state = Binary data_b\<rparr>]
       \<and> [r \<leftarrow> temp_store (fst (flush
            (fst (flush (d, generic_store_temp md5hex keep_history b oid prev_tid_a data_a command suffix)),
             generic_store_temp md5hex keep_history
               (snd (flush (d, generic_store_temp md5hex keep_history b oid prev_tid_a data_a command suffix)))
               oid prev_tid_b data_b command suffix))).
          ts_zoid r = oid]
         = [\<lparr>ts_zoid = oid, ts_prev_tid = prev_tid_b,
             ts_md5 = compute_md5sum md5hex keep_history (Some data_b), ts_state = Binary data_b\<rparr>]"
proof
  let ?b1 = "generic_store_temp md5hex keep_history b oid prev_tid_a data_a command suffix"
  let ?b2 = "generic_store_temp md5hex keep_history ?b1 oid prev_tid_b data_b command suffix"
  let ?row2 = "\<lparr>ts_zoid = oid, ts_prev_tid = prev_tid_b,
             ts_md5 = compute_md5sum md5hex keep_history (Some data_b), ts_state = Binary data_b\<rparr>"
  note b1 = generic_store_temp_keeps[OF grp keys, where md5hex = md5hex and keep_history = keep_history
      and oid = oid and prev_tid = prev_tid_a and data = data_a]
  note b2 = generic_store_temp_keeps[OF b1(1) b1(2), where md5hex = md5hex and keep_history = keep_history
      and oid = oid and prev_tid = prev_tid_b and data = data_b]
  show "[r \<leftarrow> temp_store (fst (flush (d, ?b2))). ts_zoid r = oid] = [?row2]"
    using b2(1) b2(2) tbl b2(3) b2(4) by (rule flush_select)
next
  let ?b1 = "generic_store_temp md5hex keep_history b oid prev_tid_a data_a command suffix"
  let ?s1 = "flush (d, ?b1)"
  let ?b2 = "generic_store_temp md5hex keep_history (snd ?s1) oid prev_tid_b data_b command suffix"
  let ?row2 = "\<lparr>ts_zoid = oid, ts_prev_tid = prev_tid_b,
             ts_md5 = compute_md5sum md5hex keep_history (Some data_b), ts_state = Binary data_b\<rparr>"
  note b1 = generic_store_temp_keeps[OF grp keys, where md5hex = md5hex and keep_history = keep_history
      and oid = oid and prev_tid = prev_tid_a and data = data_a]
  have e1: "\<forall>e \<in> set (inserts (snd ?s1)).
              fst (fst e) = (command, suffix) \<and> ts_zoid (snd e) = snd (fst e)"
    and e2: "distinct (map fst (inserts (snd ?s1)))"
    by (simp_all add: flush_batcher new_batcher_def)
  note b2 = generic_store_temp_keeps[OF e1 e2, where md5hex = md5hex and keep_history = keep_history
      and oid = oid and prev_tid = prev_tid_b and data = data_b]
  have tbl1: "(command = ''INSERT'' \<and> suffix = []) \<or> distinct (map ts_zoid (temp_store (fst ?s1)))"
  proof (cases "command = ''INSERT'' \<and> suffix = []")
    case True
    then show ?thesis by simp
  next
    case False
    with tbl have "distinct (map ts_zoid (temp_store d))" by simp
    with False b1(1) b1(2) have "distinct (map ts_zoid (temp_store (fst ?s1)))"
      by (rule flush_upsert_distinct)
    then show ?thesis by simp
  qed
  show "[r \<leftarrow> temp_store (fst (flush (fst ?s1, ?b2))). ts_zoid r = oid] = [?row2]"
    using b2(1) b2(2) tbl1 b2(3) b2(4) by (rule flush_select)
qed

theorem generic_store_temp_twice_witness:
  "[r \<leftarrow> temp_store (fst (flush (example_db,
            generic_store_temp (\<lambda>b. ''digest'') True
              (generic_store_temp (\<lambda>b. ''digest'') True new_batcher 7 50 ''B'' ''INSERT'' [])
              7 100 ''R'' ''INSERT'' []))).
          ts_zoid r = 7]
         = [\<lparr>ts_zoid = 7, ts_prev_tid = 100, ts_md5 = Some ''digest'', ts_state = Some ''R''\<rparr>]
   \<and> [r \<leftarrow> temp_store (fst (flush
            (fst (flush (example_db,
               generic_store_temp (\<lambda>b. ''digest'') True new_batcher 7 50 ''B'' ''INSERT'' [])),
             generic_store_temp (\<lambda>b. ''digest'') True
               (snd (flush (example_db,
                  generic_store_temp (\<lambda>b. ''digest'') True new_batcher 7 50 ''B'' ''INSERT'' [])))
               7 100 ''R'' ''INSERT'' []))).
          ts_zoid r = 7]
         = [\<lparr>ts_zoid = 7, ts_prev_tid = 100, ts_md5 = Some ''digest'', ts_state = Some ''R''\<rparr>]"
proof -
  have grp: "\<forall>e \<in> set (inserts new_batcher).
               fst (fst e) = (''INSERT'', []) \<and> ts_zoid (snd e) = snd (fst e)"
    and keys: "distinct (map fst (inserts new_batcher))"
    by (simp_all add: new_batcher_def)
  have tbl: "(''INSERT'' = ''INSERT'' \<and> ([]::string) = [])
      \<or> distinct (map ts_zoid (temp_store example_db))"
    by simp
  have row: "\<lparr>ts_zoid = 7, ts_prev_tid = 100,
      ts_md5 = compute_md5sum (\<lambda>b. ''digest'') True (Some ''R''), ts_state = Binary ''R''\<rparr>
      = \<lparr>ts_zoid = 7, ts_prev_tid = 100, ts_md5 = Some ''digest'', ts_state = Some ''R''\<rparr>"
    by (simp add: compute_md5sum_def noop_when_history_free_def Binary_def)
  from generic_store_temp_twice[OF grp keys tbl, where md5hex = "\<lambda>b. ''digest''"
      and keep_history = True and oid = 7 and prev_tid_a = 50 and data_a = "''B''"
      and prev_tid_b = 100 and data_b = "''R''"]
  show ?thesis
    unfolding row .
qed

end
